theory Spec2Isabelle
  imports Main "HOL-Library.Word"
begin

section \<open>BasePass: passports, events and signed stamp claims\<close>

text \<open>
  The development embeds the two contracts of the separate-ledger variant,
  \<^verbatim>\<open>BasePass\<close> (passport NFT, event registry, claim authorisation) and
  \<^verbatim>\<open>EventStamp\<close> (stamp NFT, minted through \<^verbatim>\<open>MINTER_ROLE\<close>), together with the parts
  of the OpenZeppelin Contracts 5 base contracts they inherit (ERC721, ERC721Enumerable,
  AccessControl, Ownable, ReentrancyGuard).

  Conventions.
  \<^item> \<^verbatim>\<open>uint256\<close> and \<^verbatim>\<open>address\<close> are natural numbers; \<^verbatim>\<open>address(0)\<close> is \<open>0\<close>. Checked
    arithmetic of Solidity 0.8 panics above \<open>2^256 - 1\<close>; the check is written out as a
    \<open>Panic\<close> branch, and \<^verbatim>\<open>unchecked\<close> blocks wrap modulo \<open>2^256\<close>.
  \<^item> A Solidity mapping is a total function holding the default value at unwritten keys.
  \<^item> A call returns \<open>Inl\<close> of an error when it reverts and \<open>Inr\<close> of its result and the
    new state otherwise; a reverted transaction leaves the state as it was (\<open>transact\<close>).
  \<^item> \<^verbatim>\<open>keccak256(abi.encodePacked(...))\<close>, \<^verbatim>\<open>toEthSignedMessageHash\<close> and
    \<^verbatim>\<open>ECDSA.recover\<close> are parameters, collected in the record \<open>env\<close>, over an abstract
    type of digests.
  \<^item> The \<^verbatim>\<open>onERC721Received\<close> hook of a recipient contract is represented by its
    verdict (\<open>receiver_ok\<close> of the call context); what the hook itself may call is not
    modelled.
\<close>

type_synonym address = nat
type_synonym uint256 = nat
type_synonym bytes32 = "256 word"
type_synonym bytes = "8 word list"

definition MAX_UINT256 :: uint256 where
  "MAX_UINT256 = 2 ^ 256 - 1"

text \<open>\<^verbatim>\<open>uint256 public constant EVENT_COOLDOWN = 1 hours;\<close>\<close>

definition EVENT_COOLDOWN :: uint256 where
  "EVENT_COOLDOWN = 3600"

text \<open>
  Roles are \<^verbatim>\<open>bytes32\<close> values: \<^verbatim>\<open>DEFAULT_ADMIN_ROLE = 0x00\<close>,
  \<^verbatim>\<open>MINTER_ROLE = keccak256("MINTER_ROLE")\<close>, and any other value.
\<close>

datatype role = DEFAULT_ADMIN_ROLE | MINTER_ROLE | OTHER_ROLE bytes32

text \<open>
  \<open>Revert msg\<close> is a failed \<^verbatim>\<open>require(cond, msg)\<close> of the two contracts; the other
  constructors are the custom errors of the inherited library contracts and the
  arithmetic panic.
\<close>

datatype error =
    Revert string
  | Panic
  | ERC721InvalidOwner address
  | ERC721NonexistentToken uint256
  | ERC721IncorrectOwner address uint256 address
  | ERC721InvalidSender address
  | ERC721InvalidReceiver address
  | ERC721InsufficientApproval address uint256
  | ERC721InvalidApprover address
  | ERC721InvalidOperator address
  | ERC721OutOfBoundsIndex address uint256
  | AccessControlUnauthorizedAccount address role
  | AccessControlBadConfirmation
  | OwnableUnauthorizedAccount address
  | OwnableInvalidOwner address
  | ReentrancyGuardReentrantCall
  | ECDSAInvalidSignature

text \<open>The names of the error taxonomy, as the revert messages of the contracts.\<close>

abbreviation AlreadyHasIdentity :: error where
  "AlreadyHasIdentity \<equiv> Revert ''Already owns a passport''"
abbreviation RateLimited :: error where
  "RateLimited \<equiv> Revert ''Rate limit: wait 1 hour between creating events''"
abbreviation InvalidSigner :: error where
  "InvalidSigner \<equiv> Revert ''Invalid signer address''"
abbreviation InvalidName :: error where
  "InvalidName \<equiv> Revert ''Name must be 1-100 characters''"
abbreviation InvalidDescription :: error where
  "InvalidDescription \<equiv> Revert ''Description must not exceed 500 characters''"
abbreviation NotOwner :: error where
  "NotOwner \<equiv> Revert ''Not passport owner''"
abbreviation EventNotFound :: error where
  "EventNotFound \<equiv> Revert ''Event does not exist''"
abbreviation AlreadyClaimed :: error where
  "AlreadyClaimed \<equiv> Revert ''Stamp already claimed''"
abbreviation NonceReused :: error where
  "NonceReused \<equiv> Revert ''Nonce already used''"
abbreviation Expired :: error where
  "Expired \<equiv> Revert ''Signature expired''"
abbreviation InvalidSignature :: error where
  "InvalidSignature \<equiv> Revert ''Invalid signature''"
abbreviation PassportNonTransferable :: error where
  "PassportNonTransferable \<equiv> Revert ''BasePass: passports are non-transferable (soulbound)''"
abbreviation StampNonTransferable :: error where
  "StampNonTransferable \<equiv> Revert ''EventStamp: stamps are non-transferable (soulbound)''"

subsection \<open>Call context and environment\<close>

record ctx =
  msg_sender :: address
  block_timestamp :: uint256
  block_chainid :: uint256
  receiver_ok :: bool

record 'h env =
  keccak256_encodePacked :: "uint256 \<Rightarrow> bytes32 \<Rightarrow> uint256 \<Rightarrow> uint256 \<Rightarrow> 'h"
  toEthSignedMessageHash :: "'h \<Rightarrow> 'h"
  recover :: "'h \<Rightarrow> bytes \<Rightarrow> address option"
  basePassAddress :: address

subsection \<open>Arithmetic\<close>

definition unchecked_add :: "uint256 \<Rightarrow> uint256 \<Rightarrow> uint256" where
  "unchecked_add a b = (a + b) mod 2 ^ 256"

definition unchecked_sub :: "uint256 \<Rightarrow> uint256 \<Rightarrow> uint256" where
  "unchecked_sub a b = (a + 2 ^ 256 - b) mod 2 ^ 256"

definition checked_add :: "uint256 \<Rightarrow> uint256 \<Rightarrow> error + uint256" where
  "checked_add a b = (if a + b > MAX_UINT256 then Inl Panic else Inr (a + b))"

definition checked_sub :: "uint256 \<Rightarrow> uint256 \<Rightarrow> error + uint256" where
  "checked_sub a b = (if a < b then Inl Panic else Inr (a - b))"

subsection \<open>ERC721 (library)\<close>

record ERC721 =
  owners :: "uint256 \<Rightarrow> address"
  balances :: "address \<Rightarrow> uint256"
  tokenApprovals :: "uint256 \<Rightarrow> address"
  operatorApprovals :: "address \<Rightarrow> address \<Rightarrow> bool"

definition balanceOf :: "'a ERC721_scheme \<Rightarrow> address \<Rightarrow> error + uint256" where
  "balanceOf t a = (if a = 0 then Inl (ERC721InvalidOwner 0) else Inr (balances t a))"

definition ownerOf :: "'a ERC721_scheme \<Rightarrow> uint256 \<Rightarrow> error + address" where
  "ownerOf t tokenId =
     (if owners t tokenId = 0 then Inl (ERC721NonexistentToken tokenId)
      else Inr (owners t tokenId))"

definition isAuthorized :: "'a ERC721_scheme \<Rightarrow> address \<Rightarrow> address \<Rightarrow> uint256 \<Rightarrow> bool" where
  "isAuthorized t ownr spender tokenId =
     (spender \<noteq> 0 \<and>
      (ownr = spender \<or> operatorApprovals t ownr spender \<or> tokenApprovals t tokenId = spender))"

definition checkAuthorized ::
  "'a ERC721_scheme \<Rightarrow> address \<Rightarrow> address \<Rightarrow> uint256 \<Rightarrow> error + unit" where
  "checkAuthorized t ownr spender tokenId =
     (if \<not> isAuthorized t ownr spender tokenId
      then (if ownr = 0 then Inl (ERC721NonexistentToken tokenId)
            else Inl (ERC721InsufficientApproval spender tokenId))
      else Inr ())"

text \<open>\<^verbatim>\<open>ERC721._update(to, tokenId, auth)\<close>: returns the previous owner.\<close>

definition ERC721_update ::
  "address \<Rightarrow> uint256 \<Rightarrow> address \<Rightarrow> 'a ERC721_scheme \<Rightarrow> error + (address \<times> 'a ERC721_scheme)" where
  "ERC721_update to tokenId auth t =
     (let from = owners t tokenId in
      case (if auth \<noteq> 0 then checkAuthorized t from auth tokenId else Inr ()) of
        Inl e \<Rightarrow> Inl e
      | Inr _ \<Rightarrow>
          let t1 = (if from \<noteq> 0
                    then t\<lparr>tokenApprovals := (tokenApprovals t)(tokenId := 0),
                           balances := (balances t)(from := unchecked_sub (balances t from) 1)\<rparr>
                    else t);
              t2 = (if to \<noteq> 0
                    then t1\<lparr>balances := (balances t1)(to := unchecked_add (balances t1 to) 1)\<rparr>
                    else t1)
          in Inr (from, t2\<lparr>owners := (owners t2)(tokenId := to)\<rparr>))"

text \<open>
  The functions below call the virtual \<^verbatim>\<open>_update\<close>; the overriding function of the
  inheriting contract is the argument \<open>upd\<close>.
\<close>

definition checkOnERC721Received :: "ctx \<Rightarrow> address \<Rightarrow> error + unit" where
  "checkOnERC721Received cx to = (if receiver_ok cx then Inr () else Inl (ERC721InvalidReceiver to))"

definition ERC721_mint ::
  "(address \<Rightarrow> uint256 \<Rightarrow> address \<Rightarrow> 's \<Rightarrow> error + (address \<times> 's)) \<Rightarrow>
   address \<Rightarrow> uint256 \<Rightarrow> 's \<Rightarrow> error + 's" where
  "ERC721_mint upd to tokenId t =
     (if to = 0 then Inl (ERC721InvalidReceiver 0)
      else case upd to tokenId 0 t of
             Inl e \<Rightarrow> Inl e
           | Inr (previousOwner, t') \<Rightarrow>
               if previousOwner \<noteq> 0 then Inl (ERC721InvalidSender 0) else Inr t')"

definition ERC721_safeMint ::
  "(address \<Rightarrow> uint256 \<Rightarrow> address \<Rightarrow> 's \<Rightarrow> error + (address \<times> 's)) \<Rightarrow>
   ctx \<Rightarrow> address \<Rightarrow> uint256 \<Rightarrow> 's \<Rightarrow> error + 's" where
  "ERC721_safeMint upd cx to tokenId t =
     (case ERC721_mint upd to tokenId t of
        Inl e \<Rightarrow> Inl e
      | Inr t' \<Rightarrow> (case checkOnERC721Received cx to of Inl e \<Rightarrow> Inl e | Inr _ \<Rightarrow> Inr t'))"

definition transferFrom ::
  "(address \<Rightarrow> uint256 \<Rightarrow> address \<Rightarrow> 's \<Rightarrow> error + (address \<times> 's)) \<Rightarrow>
   ctx \<Rightarrow> address \<Rightarrow> address \<Rightarrow> uint256 \<Rightarrow> 's \<Rightarrow> error + 's" where
  "transferFrom upd cx from to tokenId t =
     (if to = 0 then Inl (ERC721InvalidReceiver 0)
      else case upd to tokenId (msg_sender cx) t of
             Inl e \<Rightarrow> Inl e
           | Inr (previousOwner, t') \<Rightarrow>
               if previousOwner \<noteq> from then Inl (ERC721IncorrectOwner from tokenId previousOwner)
               else Inr t')"

definition safeTransferFrom ::
  "(address \<Rightarrow> uint256 \<Rightarrow> address \<Rightarrow> 's \<Rightarrow> error + (address \<times> 's)) \<Rightarrow>
   ctx \<Rightarrow> address \<Rightarrow> address \<Rightarrow> uint256 \<Rightarrow> 's \<Rightarrow> error + 's" where
  "safeTransferFrom upd cx from to tokenId t =
     (case transferFrom upd cx from to tokenId t of
        Inl e \<Rightarrow> Inl e
      | Inr t' \<Rightarrow> (case checkOnERC721Received cx to of Inl e \<Rightarrow> Inl e | Inr _ \<Rightarrow> Inr t'))"

definition approve :: "ctx \<Rightarrow> address \<Rightarrow> uint256 \<Rightarrow> 'a ERC721_scheme \<Rightarrow> error + 'a ERC721_scheme" where
  "approve cx to tokenId t =
     (case ownerOf t tokenId of
        Inl e \<Rightarrow> Inl e
      | Inr ownr \<Rightarrow>
          if msg_sender cx \<noteq> 0 \<and> ownr \<noteq> msg_sender cx \<and> \<not> operatorApprovals t ownr (msg_sender cx)
          then Inl (ERC721InvalidApprover (msg_sender cx))
          else Inr (t\<lparr>tokenApprovals := (tokenApprovals t)(tokenId := to)\<rparr>))"

definition setApprovalForAll ::
  "ctx \<Rightarrow> address \<Rightarrow> bool \<Rightarrow> 'a ERC721_scheme \<Rightarrow> error + 'a ERC721_scheme" where
  "setApprovalForAll cx operator approved t =
     (if operator = 0 then Inl (ERC721InvalidOperator operator)
      else Inr (t\<lparr>operatorApprovals :=
                   (operatorApprovals t)(msg_sender cx := (operatorApprovals t (msg_sender cx))(operator := approved))\<rparr>))"

subsection \<open>Ownable and AccessControl (library)\<close>

definition transferOwnership_Ownable :: "address \<Rightarrow> address \<Rightarrow> address \<Rightarrow> error + address" where
  "transferOwnership_Ownable ownr sndr newOwner =
     (if ownr \<noteq> sndr then Inl (OwnableUnauthorizedAccount sndr)
      else if newOwner = 0 then Inl (OwnableInvalidOwner 0)
      else Inr newOwner)"

definition renounceOwnership_Ownable :: "address \<Rightarrow> address \<Rightarrow> error + address" where
  "renounceOwnership_Ownable ownr sndr =
     (if ownr \<noteq> sndr then Inl (OwnableUnauthorizedAccount sndr) else Inr 0)"

text \<open>
  \<^verbatim>\<open>onlyRole(role)\<close>. The admin role of every role is \<^verbatim>\<open>DEFAULT_ADMIN_ROLE\<close>: the
  contract never calls \<^verbatim>\<open>_setRoleAdmin\<close>.
\<close>

definition checkRole :: "(role \<Rightarrow> address \<Rightarrow> bool) \<Rightarrow> role \<Rightarrow> address \<Rightarrow> error + unit" where
  "checkRole rs r account =
     (if \<not> rs r account then Inl (AccessControlUnauthorizedAccount account r) else Inr ())"

definition getRoleAdmin :: "role \<Rightarrow> role" where
  "getRoleAdmin r = DEFAULT_ADMIN_ROLE"

subsection \<open>EventStamp\<close>

record StampMetadata =
  meta_eventId :: uint256
  meta_passportId :: uint256
  meta_timestamp :: uint256

datatype stamp_log = StampMinted address uint256 uint256 uint256

text \<open>
  The state of \<^verbatim>\<open>EventStamp\<close>: the ERC721 fields, the index structures of
  ERC721Enumerable, the role table of AccessControl, and the contract's own counter
  (\<^verbatim>\<open>_tokenIdCounter\<close>, here \<open>stampIdCounter\<close>) and metadata.
\<close>

record EventStamp = ERC721 +
  ownedTokens :: "address \<Rightarrow> uint256 \<Rightarrow> uint256"
  ownedTokensIndex :: "uint256 \<Rightarrow> uint256"
  allTokens :: "uint256 list"
  allTokensIndex :: "uint256 \<Rightarrow> uint256"
  roles :: "role \<Rightarrow> address \<Rightarrow> bool"
  stampIdCounter :: uint256
  stampMetadata :: "uint256 \<Rightarrow> StampMetadata"
  stamp_logs :: "stamp_log list"

definition EventStamp_constructor :: "address \<Rightarrow> EventStamp" where
  "EventStamp_constructor deployer =
     \<lparr>owners = (\<lambda>_. 0), balances = (\<lambda>_. 0), tokenApprovals = (\<lambda>_. 0),
      operatorApprovals = (\<lambda>_ _. False),
      ownedTokens = (\<lambda>_ _. 0), ownedTokensIndex = (\<lambda>_. 0), allTokens = [],
      allTokensIndex = (\<lambda>_. 0),
      roles = (\<lambda>r a. (r = DEFAULT_ADMIN_ROLE \<or> r = MINTER_ROLE) \<and> a = deployer),
      stampIdCounter = 1,
      stampMetadata = (\<lambda>_. \<lparr>meta_eventId = 0, meta_passportId = 0, meta_timestamp = 0\<rparr>),
      stamp_logs = []\<rparr>"

text \<open>ERC721Enumerable: the four private enumeration helpers and \<^verbatim>\<open>_update\<close>.\<close>

definition addTokenToOwnerEnumeration :: "address \<Rightarrow> uint256 \<Rightarrow> EventStamp \<Rightarrow> error + EventStamp" where
  "addTokenToOwnerEnumeration to tokenId s =
     (case balanceOf s to of
        Inl e \<Rightarrow> Inl e
      | Inr b \<Rightarrow>
          (case checked_sub b 1 of
             Inl e \<Rightarrow> Inl e
           | Inr len \<Rightarrow>
               Inr (s\<lparr>ownedTokens := (ownedTokens s)(to := (ownedTokens s to)(len := tokenId)),
                      ownedTokensIndex := (ownedTokensIndex s)(tokenId := len)\<rparr>)))"

definition addTokenToAllTokensEnumeration :: "uint256 \<Rightarrow> EventStamp \<Rightarrow> EventStamp" where
  "addTokenToAllTokensEnumeration tokenId s =
     s\<lparr>allTokensIndex := (allTokensIndex s)(tokenId := length (allTokens s)),
       allTokens := allTokens s @ [tokenId]\<rparr>"

definition removeTokenFromOwnerEnumeration :: "address \<Rightarrow> uint256 \<Rightarrow> EventStamp \<Rightarrow> error + EventStamp" where
  "removeTokenFromOwnerEnumeration from tokenId s =
     (case balanceOf s from of
        Inl e \<Rightarrow> Inl e
      | Inr lastTokenIndex \<Rightarrow>
          let tokenIndex = ownedTokensIndex s tokenId;
              s1 = (if tokenIndex \<noteq> lastTokenIndex
                    then let lastTokenId = ownedTokens s from lastTokenIndex
                         in s\<lparr>ownedTokens := (ownedTokens s)(from := (ownedTokens s from)(tokenIndex := lastTokenId)),
                              ownedTokensIndex := (ownedTokensIndex s)(lastTokenId := tokenIndex)\<rparr>
                    else s)
          in Inr (s1\<lparr>ownedTokensIndex := (ownedTokensIndex s1)(tokenId := 0),
                     ownedTokens := (ownedTokens s1)(from := (ownedTokens s1 from)(lastTokenIndex := 0))\<rparr>))"

definition removeTokenFromAllTokensEnumeration :: "uint256 \<Rightarrow> EventStamp \<Rightarrow> error + EventStamp" where
  "removeTokenFromAllTokensEnumeration tokenId s =
     (case checked_sub (length (allTokens s)) 1 of
        Inl e \<Rightarrow> Inl e
      | Inr lastTokenIndex \<Rightarrow>
          let tokenIndex = allTokensIndex s tokenId;
              lastTokenId = allTokens s ! lastTokenIndex
          in if tokenIndex \<ge> length (allTokens s) then Inl Panic
             else Inr (s\<lparr>allTokens := butlast ((allTokens s)[tokenIndex := lastTokenId]),
                         allTokensIndex := ((allTokensIndex s)(lastTokenId := tokenIndex))(tokenId := 0)\<rparr>))"

definition ERC721Enumerable_update ::
  "address \<Rightarrow> uint256 \<Rightarrow> address \<Rightarrow> EventStamp \<Rightarrow> error + (address \<times> EventStamp)" where
  "ERC721Enumerable_update to tokenId auth s =
     (case ERC721_update to tokenId auth s of
        Inl e \<Rightarrow> Inl e
      | Inr (previousOwner, s1) \<Rightarrow>
          (case (if previousOwner = 0 then Inr (addTokenToAllTokensEnumeration tokenId s1)
                 else if previousOwner \<noteq> to then removeTokenFromOwnerEnumeration previousOwner tokenId s1
                 else Inr s1) of
             Inl e \<Rightarrow> Inl e
           | Inr s2 \<Rightarrow>
               (case (if to = 0 then removeTokenFromAllTokensEnumeration tokenId s2
                      else if previousOwner \<noteq> to then addTokenToOwnerEnumeration to tokenId s2
                      else Inr s2) of
                  Inl e \<Rightarrow> Inl e
                | Inr s3 \<Rightarrow> Inr (previousOwner, s3))))"

text \<open>\<^verbatim>\<open>EventStamp._update\<close>: only minting (\<^verbatim>\<open>from == address(0)\<close>) is let through.\<close>

definition EventStamp_update ::
  "address \<Rightarrow> uint256 \<Rightarrow> address \<Rightarrow> EventStamp \<Rightarrow> error + (address \<times> EventStamp)" where
  "EventStamp_update to tokenId auth s =
     (let from = owners s tokenId in
      if from \<noteq> 0 then Inl StampNonTransferable
      else ERC721Enumerable_update to tokenId auth s)"

definition mintStamp ::
  "ctx \<Rightarrow> address \<Rightarrow> uint256 \<Rightarrow> uint256 \<Rightarrow> EventStamp \<Rightarrow> error + (uint256 \<times> EventStamp)" where
  "mintStamp cx to eventId passportId s =
     (case checkRole (roles s) MINTER_ROLE (msg_sender cx) of
        Inl e \<Rightarrow> Inl e
      | Inr _ \<Rightarrow>
          let tokenId = stampIdCounter s in
          (case checked_add (stampIdCounter s) 1 of
             Inl e \<Rightarrow> Inl e
           | Inr c \<Rightarrow>
               (case ERC721_safeMint EventStamp_update cx to tokenId (s\<lparr>stampIdCounter := c\<rparr>) of
                  Inl e \<Rightarrow> Inl e
                | Inr s1 \<Rightarrow>
                    Inr (tokenId,
                         s1\<lparr>stampMetadata := (stampMetadata s1)
                               (tokenId := \<lparr>meta_eventId = eventId, meta_passportId = passportId,
                                            meta_timestamp = block_timestamp cx\<rparr>),
                            stamp_logs := stamp_logs s1 @ [StampMinted to tokenId eventId passportId]\<rparr>))))"

definition tokenOfOwnerByIndex :: "EventStamp \<Rightarrow> address \<Rightarrow> uint256 \<Rightarrow> error + uint256" where
  "tokenOfOwnerByIndex s ownr index =
     (case balanceOf s ownr of
        Inl e \<Rightarrow> Inl e
      | Inr b \<Rightarrow> if index \<ge> b then Inl (ERC721OutOfBoundsIndex ownr index)
                 else Inr (ownedTokens s ownr index))"

text \<open>
  The loop of \<^verbatim>\<open>hasStampForEvent\<close>, from index \<open>i\<close>:
  \<^verbatim>\<open>for (uint256 i = 0; i < balance; i++) { ... if (...) return true; } return false;\<close>
\<close>

function hasStampLoop :: "EventStamp \<Rightarrow> address \<Rightarrow> uint256 \<Rightarrow> uint256 \<Rightarrow> uint256 \<Rightarrow> error + bool" where
  "hasStampLoop s ownr eventId balance i =
     (if i < balance then
        (case tokenOfOwnerByIndex s ownr i of
           Inl e \<Rightarrow> Inl e
         | Inr tokenId \<Rightarrow>
             if meta_eventId (stampMetadata s tokenId) = eventId then Inr True
             else (case checked_add i 1 of
                     Inl e \<Rightarrow> Inl e
                   | Inr i' \<Rightarrow> hasStampLoop s ownr eventId balance i'))
      else Inr False)"
  by pat_completeness auto
termination
  by (relation "measure (\<lambda>(s, ownr, eventId, balance, i). balance - i)")
     (auto simp: checked_add_def split: if_splits)

declare hasStampLoop.simps [simp del]

definition hasStampForEvent :: "EventStamp \<Rightarrow> address \<Rightarrow> uint256 \<Rightarrow> error + bool" where
  "hasStampForEvent s ownr eventId =
     (case balanceOf s ownr of
        Inl e \<Rightarrow> Inl e
      | Inr balance \<Rightarrow> hasStampLoop s ownr eventId balance 0)"

definition totalStamps :: "EventStamp \<Rightarrow> error + uint256" where
  "totalStamps s = checked_sub (stampIdCounter s) 1"

definition grantRole :: "ctx \<Rightarrow> role \<Rightarrow> address \<Rightarrow> EventStamp \<Rightarrow> error + EventStamp" where
  "grantRole cx r account s =
     (case checkRole (roles s) (getRoleAdmin r) (msg_sender cx) of
        Inl e \<Rightarrow> Inl e
      | Inr _ \<Rightarrow> Inr (s\<lparr>roles := (roles s)(r := (roles s r)(account := True))\<rparr>))"

definition revokeRole :: "ctx \<Rightarrow> role \<Rightarrow> address \<Rightarrow> EventStamp \<Rightarrow> error + EventStamp" where
  "revokeRole cx r account s =
     (case checkRole (roles s) (getRoleAdmin r) (msg_sender cx) of
        Inl e \<Rightarrow> Inl e
      | Inr _ \<Rightarrow> Inr (s\<lparr>roles := (roles s)(r := (roles s r)(account := False))\<rparr>))"

definition renounceRole :: "ctx \<Rightarrow> role \<Rightarrow> address \<Rightarrow> EventStamp \<Rightarrow> error + EventStamp" where
  "renounceRole cx r callerConfirmation s =
     (if callerConfirmation \<noteq> msg_sender cx then Inl AccessControlBadConfirmation
      else Inr (s\<lparr>roles := (roles s)(r := (roles s r)(msg_sender cx := False))\<rparr>))"

subsection \<open>BasePass\<close>

record Event =
  ev_id :: uint256
  ev_name :: string
  ev_description :: string
  ev_iconUrl :: string
  ev_signer :: address
  ev_exists :: bool

datatype passport_log =
    PassportMinted address uint256
  | EventCreated uint256 string address
  | StampClaimed uint256 uint256 address

text \<open>
  The state of \<^verbatim>\<open>BasePass\<close>: the ERC721 fields, \<^verbatim>\<open>Ownable._owner\<close>, the status of
  ReentrancyGuard (\<open>entered\<close>), and the contract's own storage.
\<close>

record BasePass = ERC721 +
  contract_owner :: address
  entered :: bool
  tokenIdCounter :: uint256
  eventIdCounter :: uint256
  usedNonces :: "bytes32 \<Rightarrow> bool"
  events :: "uint256 \<Rightarrow> Event"
  lastEventCreation :: "address \<Rightarrow> uint256"
  passport_logs :: "passport_log list"

text \<open>The pair of deployed contracts; \<^verbatim>\<open>stampContract\<close> of BasePass is \<open>stamp\<close>.\<close>

record world =
  passport :: BasePass
  stamp :: EventStamp

definition BasePass_constructor :: "address \<Rightarrow> BasePass" where
  "BasePass_constructor deployer =
     \<lparr>owners = (\<lambda>_. 0), balances = (\<lambda>_. 0), tokenApprovals = (\<lambda>_. 0),
      operatorApprovals = (\<lambda>_ _. False),
      contract_owner = deployer, entered = False,
      tokenIdCounter = 1, eventIdCounter = 1,
      usedNonces = (\<lambda>_. False),
      events = (\<lambda>_. \<lparr>ev_id = 0, ev_name = [], ev_description = [], ev_iconUrl = [],
                       ev_signer = 0, ev_exists = False\<rparr>),
      lastEventCreation = (\<lambda>_. 0),
      passport_logs = []\<rparr>"

text \<open>The state after both constructors have run, as in \<^verbatim>\<open>scripts/deploy.ts\<close>.\<close>

definition deployed :: "address \<Rightarrow> world" where
  "deployed deployer =
     \<lparr>passport = BasePass_constructor deployer, stamp = EventStamp_constructor deployer\<rparr>"

text \<open>\<^verbatim>\<open>BasePass._update\<close>: only minting (\<^verbatim>\<open>from == address(0)\<close>) is let through.\<close>

definition BasePass_update ::
  "address \<Rightarrow> uint256 \<Rightarrow> address \<Rightarrow> BasePass \<Rightarrow> error + (address \<times> BasePass)" where
  "BasePass_update to tokenId auth s =
     (let from = owners s tokenId in
      if from \<noteq> 0 then Inl PassportNonTransferable
      else ERC721_update to tokenId auth s)"

text \<open>The modifier \<^verbatim>\<open>nonReentrant\<close> around a function body working on the world.\<close>

definition nonReentrant :: "(world \<Rightarrow> error + world) \<Rightarrow> world \<Rightarrow> error + world" where
  "nonReentrant body w =
     (if entered (passport w) then Inl ReentrancyGuardReentrantCall
      else case body (w\<lparr>passport := (passport w)\<lparr>entered := True\<rparr>\<rparr>) of
             Inl e \<Rightarrow> Inl e
           | Inr w' \<Rightarrow> Inr (w'\<lparr>passport := (passport w')\<lparr>entered := False\<rparr>\<rparr>))"

definition mintPassport_body :: "ctx \<Rightarrow> world \<Rightarrow> error + world" where
  "mintPassport_body cx w =
     (let s = passport w in
      case balanceOf s (msg_sender cx) of
        Inl e \<Rightarrow> Inl e
      | Inr b \<Rightarrow>
          if b \<noteq> 0 then Inl AlreadyHasIdentity
          else
            let tokenId = tokenIdCounter s in
            (case checked_add (tokenIdCounter s) 1 of
               Inl e \<Rightarrow> Inl e
             | Inr c \<Rightarrow>
                 (case ERC721_safeMint BasePass_update cx (msg_sender cx) tokenId
                         (s\<lparr>tokenIdCounter := c\<rparr>) of
                    Inl e \<Rightarrow> Inl e
                  | Inr s1 \<Rightarrow>
                      Inr (w\<lparr>passport :=
                               s1\<lparr>passport_logs := passport_logs s1 @
                                     [PassportMinted (msg_sender cx) tokenId]\<rparr>\<rparr>))))"

definition mintPassport :: "ctx \<Rightarrow> world \<Rightarrow> error + world" where
  "mintPassport cx = nonReentrant (mintPassport_body cx)"

definition createEvent ::
  "ctx \<Rightarrow> string \<Rightarrow> string \<Rightarrow> string \<Rightarrow> address \<Rightarrow> BasePass \<Rightarrow> error + (uint256 \<times> BasePass)" where
  "createEvent cx name description iconUrl signer s =
     (case checked_add (lastEventCreation s (msg_sender cx)) EVENT_COOLDOWN of
        Inl e \<Rightarrow> Inl e
      | Inr allowedAt \<Rightarrow>
          if \<not> block_timestamp cx \<ge> allowedAt then Inl RateLimited
          else if \<not> signer \<noteq> 0 then Inl InvalidSigner
          else if \<not> (length name > 0 \<and> length name \<le> 100) then Inl InvalidName
          else if \<not> length description \<le> 500 then Inl InvalidDescription
          else
            let s1 = s\<lparr>lastEventCreation :=
                         (lastEventCreation s)(msg_sender cx := block_timestamp cx)\<rparr>;
                eventId = eventIdCounter s1 in
            (case checked_add (eventIdCounter s1) 1 of
               Inl e \<Rightarrow> Inl e
             | Inr c \<Rightarrow>
                 Inr (eventId,
                      s1\<lparr>eventIdCounter := c,
                         events := (events s1)
                           (eventId := \<lparr>ev_id = eventId, ev_name = name,
                                        ev_description = description, ev_iconUrl = iconUrl,
                                        ev_signer = signer, ev_exists = True\<rparr>),
                         passport_logs := passport_logs s1 @ [EventCreated eventId name signer]\<rparr>)))"

definition claimStamp_body ::
  "'h env \<Rightarrow> ctx \<Rightarrow> uint256 \<Rightarrow> uint256 \<Rightarrow> bytes32 \<Rightarrow> uint256 \<Rightarrow> bytes \<Rightarrow> world \<Rightarrow> error + world" where
  "claimStamp_body env cx tokenId eventId nonce expiration signature w =
     (let s = passport w in
      case ownerOf s tokenId of
        Inl e \<Rightarrow> Inl e
      | Inr tokenOwner \<Rightarrow>
     (if \<not> tokenOwner = msg_sender cx then Inl NotOwner
      else if \<not> ev_exists (events s eventId) then Inl EventNotFound
      else
     (case hasStampForEvent (stamp w) (msg_sender cx) eventId of
        Inl e \<Rightarrow> Inl e
      | Inr claimed \<Rightarrow>
     (if \<not> \<not> claimed then Inl AlreadyClaimed
      else if \<not> \<not> usedNonces s nonce then Inl NonceReused
      else if \<not> block_timestamp cx \<le> expiration then Inl Expired
      else
     (let messageHash = keccak256_encodePacked env eventId nonce expiration (block_chainid cx);
          ethSignedMessageHash = toEthSignedMessageHash env messageHash in
      case recover env ethSignedMessageHash signature of
        None \<Rightarrow> Inl ECDSAInvalidSignature
      | Some recoveredSigner \<Rightarrow>
     (if \<not> recoveredSigner = ev_signer (events s eventId) then Inl InvalidSignature
      else
     (let s1 = s\<lparr>usedNonces := (usedNonces s)(nonce := True)\<rparr> in
      case mintStamp (cx\<lparr>msg_sender := basePassAddress env\<rparr>) (msg_sender cx) eventId tokenId
             (stamp w) of
        Inl e \<Rightarrow> Inl e
      | Inr (stampId, st1) \<Rightarrow>
          Inr (w\<lparr>passport := s1\<lparr>passport_logs := passport_logs s1 @
                                    [StampClaimed tokenId eventId (msg_sender cx)]\<rparr>,
                 stamp := st1\<rparr>))))))))"

definition claimStamp ::
  "'h env \<Rightarrow> ctx \<Rightarrow> uint256 \<Rightarrow> uint256 \<Rightarrow> bytes32 \<Rightarrow> uint256 \<Rightarrow> bytes \<Rightarrow> world \<Rightarrow> error + world" where
  "claimStamp env cx tokenId eventId nonce expiration signature =
     nonReentrant (claimStamp_body env cx tokenId eventId nonce expiration signature)"

definition getEvent :: "BasePass \<Rightarrow> uint256 \<Rightarrow> error + Event" where
  "getEvent s eventId =
     (if \<not> ev_exists (events s eventId) then Inl EventNotFound else Inr (events s eventId))"

definition hasStamp :: "world \<Rightarrow> uint256 \<Rightarrow> uint256 \<Rightarrow> error + bool" where
  "hasStamp w tokenId eventId =
     (case ownerOf (passport w) tokenId of
        Inl e \<Rightarrow> Inl e
      | Inr passportOwner \<Rightarrow> hasStampForEvent (stamp w) passportOwner eventId)"

definition totalPassports :: "BasePass \<Rightarrow> error + uint256" where
  "totalPassports s = checked_sub (tokenIdCounter s) 1"

definition totalEvents :: "BasePass \<Rightarrow> error + uint256" where
  "totalEvents s = checked_sub (eventIdCounter s) 1"

subsection \<open>Transactions\<close>

text \<open>
  The state-changing external functions of the two contracts. A transaction is a call
  in a context; \<open>exec\<close> runs it, \<open>transact\<close> gives the state it leaves behind, which is
  the state before when the call reverts.
\<close>

datatype call =
    MintPassport
  | CreateEvent string string string address
  | ClaimStamp uint256 uint256 bytes32 uint256 bytes
  | PassportTransferFrom address address uint256
  | PassportSafeTransferFrom address address uint256
  | PassportApprove address uint256
  | PassportSetApprovalForAll address bool
  | TransferOwnership address
  | RenounceOwnership
  | MintStamp address uint256 uint256
  | StampTransferFrom address address uint256
  | StampSafeTransferFrom address address uint256
  | StampApprove address uint256
  | StampSetApprovalForAll address bool
  | GrantRole role address
  | RevokeRole role address
  | RenounceRole role address

definition on_passport :: "world \<Rightarrow> error + BasePass \<Rightarrow> error + world" where
  "on_passport w r = (case r of Inl e \<Rightarrow> Inl e | Inr s \<Rightarrow> Inr (w\<lparr>passport := s\<rparr>))"

definition on_stamp :: "world \<Rightarrow> error + EventStamp \<Rightarrow> error + world" where
  "on_stamp w r = (case r of Inl e \<Rightarrow> Inl e | Inr s \<Rightarrow> Inr (w\<lparr>stamp := s\<rparr>))"

fun exec :: "'h env \<Rightarrow> ctx \<Rightarrow> call \<Rightarrow> world \<Rightarrow> error + world" where
  "exec env cx MintPassport w = mintPassport cx w"
| "exec env cx (CreateEvent name description iconUrl signer) w =
     on_passport w (map_sum id snd (createEvent cx name description iconUrl signer (passport w)))"
| "exec env cx (ClaimStamp tokenId eventId nonce expiration signature) w =
     claimStamp env cx tokenId eventId nonce expiration signature w"
| "exec env cx (PassportTransferFrom from to tokenId) w =
     on_passport w (transferFrom BasePass_update cx from to tokenId (passport w))"
| "exec env cx (PassportSafeTransferFrom from to tokenId) w =
     on_passport w (safeTransferFrom BasePass_update cx from to tokenId (passport w))"
| "exec env cx (PassportApprove to tokenId) w =
     on_passport w (approve cx to tokenId (passport w))"
| "exec env cx (PassportSetApprovalForAll operator approved) w =
     on_passport w (setApprovalForAll cx operator approved (passport w))"
| "exec env cx (TransferOwnership newOwner) w =
     on_passport w
       (map_sum id (\<lambda>a. (passport w)\<lparr>contract_owner := a\<rparr>)
          (transferOwnership_Ownable (contract_owner (passport w)) (msg_sender cx) newOwner))"
| "exec env cx RenounceOwnership w =
     on_passport w
       (map_sum id (\<lambda>a. (passport w)\<lparr>contract_owner := a\<rparr>)
          (renounceOwnership_Ownable (contract_owner (passport w)) (msg_sender cx)))"
| "exec env cx (MintStamp to eventId passportId) w =
     on_stamp w (map_sum id snd (mintStamp cx to eventId passportId (stamp w)))"
| "exec env cx (StampTransferFrom from to tokenId) w =
     on_stamp w (transferFrom EventStamp_update cx from to tokenId (stamp w))"
| "exec env cx (StampSafeTransferFrom from to tokenId) w =
     on_stamp w (safeTransferFrom EventStamp_update cx from to tokenId (stamp w))"
| "exec env cx (StampApprove to tokenId) w =
     on_stamp w (approve cx to tokenId (stamp w))"
| "exec env cx (StampSetApprovalForAll operator approved) w =
     on_stamp w (setApprovalForAll cx operator approved (stamp w))"
| "exec env cx (GrantRole r account) w = on_stamp w (grantRole cx r account (stamp w))"
| "exec env cx (RevokeRole r account) w = on_stamp w (revokeRole cx r account (stamp w))"
| "exec env cx (RenounceRole r account) w = on_stamp w (renounceRole cx r account (stamp w))"

definition transact :: "'h env \<Rightarrow> ctx \<times> call \<Rightarrow> world \<Rightarrow> world" where
  "transact env tx w = (case exec env (fst tx) (snd tx) w of Inl e \<Rightarrow> w | Inr w' \<Rightarrow> w')"

text \<open>
  The states the deployed system can be in: any number of transactions, none of them
  sent from \<^verbatim>\<open>address(0)\<close>, from the state the constructors leave.
\<close>

inductive reachable :: "'h env \<Rightarrow> address \<Rightarrow> world \<Rightarrow> bool" for env :: "'h env" and deployer :: address where
  reachable_deployed: "reachable env deployer (deployed deployer)"
| reachable_transact:
    "reachable env deployer w \<Longrightarrow> msg_sender cx \<noteq> 0 \<Longrightarrow>
     reachable env deployer (transact env (cx, c) w)"

fun run :: "'h env \<Rightarrow> (ctx \<times> call) list \<Rightarrow> world \<Rightarrow> world" where
  "run env [] w = w"
| "run env (tx # txs) w = run env txs (transact env tx w)"

definition senders_ok :: "(ctx \<times> call) list \<Rightarrow> bool" where
  "senders_ok txs = list_all (\<lambda>tx. msg_sender (fst tx) \<noteq> 0) txs"

subsection \<open>Invariants of the reachable states\<close>

text \<open>The token ids that have an owner.\<close>

definition minted :: "'a ERC721_scheme \<Rightarrow> uint256 set" where
  "minted s = {tokenId. owners s tokenId \<noteq> 0}"

text \<open>No address owns two passports.\<close>

definition one_passport_each :: "'a ERC721_scheme \<Rightarrow> bool" where
  "one_passport_each s \<longleftrightarrow>
     (\<forall>i j. owners s i \<noteq> 0 \<longrightarrow> owners s i = owners s j \<longrightarrow> i = j)"

definition passport_inv :: "BasePass \<Rightarrow> bool" where
  "passport_inv s \<longleftrightarrow>
     \<not> entered s \<and> 0 < tokenIdCounter s \<and>
     minted s = {0<..<tokenIdCounter s} \<and>
     (\<forall>tokenId. owners s tokenId \<noteq> 0 \<longrightarrow> balances s (owners s tokenId) = 1) \<and>
     (\<forall>a. balances s a \<le> 1) \<and>
     one_passport_each s \<and>
     (\<forall>tokenId. owners s tokenId = 0 \<longrightarrow> tokenApprovals s tokenId = 0) \<and>
     (\<forall>a. \<not> operatorApprovals s 0 a) \<and>
     (\<forall>eventId. ev_exists (events s eventId) \<longrightarrow>
        eventId < eventIdCounter s \<and> ev_signer (events s eventId) \<noteq> 0)"

definition stamp_inv :: "EventStamp \<Rightarrow> bool" where
  "stamp_inv s \<longleftrightarrow>
     stampIdCounter s \<le> MAX_UINT256 \<and>
     (\<forall>tokenId. owners s tokenId \<noteq> 0 \<longrightarrow> tokenId < stampIdCounter s) \<and>
     (\<forall>a. balances s a < stampIdCounter s) \<and>
     (\<forall>a i. a \<noteq> 0 \<longrightarrow> i < balances s a \<longrightarrow> owners s (ownedTokens s a i) = a) \<and>
     (\<forall>tokenId. owners s tokenId \<noteq> 0 \<longrightarrow>
        ownedTokensIndex s tokenId < balances s (owners s tokenId) \<and>
        ownedTokens s (owners s tokenId) (ownedTokensIndex s tokenId) = tokenId) \<and>
     (\<forall>tokenId. owners s tokenId = 0 \<longrightarrow> tokenApprovals s tokenId = 0) \<and>
     (\<forall>a. \<not> operatorApprovals s 0 a)"

definition world_inv :: "world \<Rightarrow> bool" where
  "world_inv w \<longleftrightarrow> passport_inv (passport w) \<and> stamp_inv (stamp w)"

text \<open>Whether an address owns a stamp token whose metadata names the event.\<close>

definition holdsStampFor :: "EventStamp \<Rightarrow> address \<Rightarrow> uint256 \<Rightarrow> bool" where
  "holdsStampFor s a eventId \<longleftrightarrow>
     (\<exists>t. owners s t = a \<and> meta_eventId (stampMetadata s t) = eventId)"

subsection \<open>The cooldown as the front end reads it\<close>


subsection \<open>The signed digest\<close>




subsection \<open>A concrete run\<close>

text \<open>
  The scenario used to exercise the theorems: a deployer, two principals \<open>alice\<close> and
  \<open>bob\<close>, and symbolic cryptography in which a digest is the signed tuple itself and
  a signature is the one-byte name of its signer, valid for the digest of \<open>demo_payload\<close>.
\<close>

definition deployer0 :: address where "deployer0 = 100"
definition alice :: address where "alice = 1"
definition bob :: address where "bob = 2"

definition demo_payload :: "uint256 \<times> bytes32 \<times> uint256 \<times> uint256" where
  "demo_payload = (1, 1, 1003600, 8453)"

definition demo_env :: "(uint256 \<times> bytes32 \<times> uint256 \<times> uint256) env" where
  "demo_env =
     \<lparr>keccak256_encodePacked = (\<lambda>eventId nonce expiration chainId. (eventId, nonce, expiration, chainId)),
      toEthSignedMessageHash = (\<lambda>h. h),
      recover = (\<lambda>h sg. if h = demo_payload \<and> length sg = 1 then Some (unat (hd sg)) else None),
      basePassAddress = 50\<rparr>"

definition at_time :: "address \<Rightarrow> uint256 \<Rightarrow> ctx" where
  "at_time a t = \<lparr>msg_sender = a, block_timestamp = t, block_chainid = 8453, receiver_ok = True\<rparr>"

definition demo_claim :: call where
  "demo_claim = ClaimStamp 1 1 1 1003600 [2]"

definition demo_setup :: "(ctx \<times> call) list" where
  "demo_setup =
     [(at_time deployer0 1000000, GrantRole MINTER_ROLE 50),
      (at_time alice 1000000, MintPassport),
      (at_time bob 1000000, CreateEvent ''Conference'' ''Annual meeting'' ''ipfs://icon'' bob)]"

definition demo_ready :: world where
  "demo_ready = run demo_env demo_setup (deployed deployer0)"

definition demo_claimed :: world where
  "demo_claimed = transact demo_env (at_time alice 1000000, demo_claim) demo_ready"

definition demo_created :: world where
  "demo_created =
     run demo_env [(at_time alice 1000500, MintPassport)]
       (transact demo_env
          (at_time bob 1000000, CreateEvent ''Conference'' ''Annual meeting'' ''ipfs://icon'' bob)
          (deployed deployer0))"

text \<open>Attempts to move alice's passport and stamp, by her, by an approved operator and by the deployer.\<close>

definition demo_attack :: "(ctx \<times> call) list" where
  "demo_attack =
     [(at_time alice 1000100, PassportApprove bob 1),
      (at_time bob 1000200, PassportTransferFrom alice bob 1),
      (at_time alice 1000300, PassportSafeTransferFrom alice bob 1),
      (at_time deployer0 1000400, PassportTransferFrom alice deployer0 1),
      (at_time alice 1000500, StampSetApprovalForAll bob True),
      (at_time bob 1000600, StampTransferFrom alice bob 1),
      (at_time deployer0 1000700, StampSafeTransferFrom alice deployer0 1)]"


section \<open>What a successful call does\<close>

text \<open>
  Each state-changing function is characterised by the conditions under which it
  returns and the state it returns.
\<close>

lemma unchecked_add_small: "a < MAX_UINT256 \<Longrightarrow> unchecked_add a 1 = a + 1"
  by (simp add: unchecked_add_def MAX_UINT256_def)

lemma mintStamp_Inr_iff:
  "mintStamp cx to eventId passportId s = Inr (tid, s') \<longleftrightarrow>
     roles s MINTER_ROLE (msg_sender cx) \<and> stampIdCounter s < MAX_UINT256 \<and> to \<noteq> 0 \<and>
     owners s (stampIdCounter s) = 0 \<and> receiver_ok cx \<and> unchecked_add (balances s to) 1 \<noteq> 0 \<and>
     tid = stampIdCounter s \<and>
     s' = s\<lparr>owners := (owners s)(tid := to),
            balances := (balances s)(to := unchecked_add (balances s to) 1),
            ownedTokens := (ownedTokens s)(to := (ownedTokens s to)(unchecked_add (balances s to) 1 - 1 := tid)),
            ownedTokensIndex := (ownedTokensIndex s)(tid := unchecked_add (balances s to) 1 - 1),
            allTokens := allTokens s @ [tid],
            allTokensIndex := (allTokensIndex s)(tid := length (allTokens s)),
            stampIdCounter := stampIdCounter s + 1,
            stampMetadata := (stampMetadata s)(tid := \<lparr>meta_eventId = eventId, meta_passportId = passportId,
                                            meta_timestamp = block_timestamp cx\<rparr>),
            stamp_logs := stamp_logs s @ [StampMinted to tid eventId passportId]\<rparr>"
  by (auto simp: mintStamp_def checkRole_def checked_add_def ERC721_safeMint_def ERC721_mint_def
      EventStamp_update_def ERC721Enumerable_update_def ERC721_update_def
      addTokenToAllTokensEnumeration_def addTokenToOwnerEnumeration_def balanceOf_def
      checked_sub_def checkOnERC721Received_def Let_def split: sum.splits if_splits prod.splits)

lemma mintPassport_Inr_iff:
  "mintPassport cx w = Inr w' \<longleftrightarrow>
     \<not> entered (passport w) \<and> msg_sender cx \<noteq> 0 \<and> balances (passport w) (msg_sender cx) = 0 \<and>
     tokenIdCounter (passport w) < MAX_UINT256 \<and>
     owners (passport w) (tokenIdCounter (passport w)) = 0 \<and> receiver_ok cx \<and>
     w' = w\<lparr>passport := (passport w)
            \<lparr>owners := (owners (passport w))(tokenIdCounter (passport w) := msg_sender cx),
             balances := (balances (passport w))(msg_sender cx := 1),
             tokenIdCounter := tokenIdCounter (passport w) + 1,
             passport_logs := passport_logs (passport w) @
                [PassportMinted (msg_sender cx) (tokenIdCounter (passport w))]\<rparr>\<rparr>"
  by (auto simp: mintPassport_def nonReentrant_def mintPassport_body_def checked_add_def ERC721_safeMint_def ERC721_mint_def
      BasePass_update_def ERC721_update_def balanceOf_def unchecked_add_def
      checkOnERC721Received_def Let_def split: sum.splits if_splits prod.splits)

lemma createEvent_Inr_iff:
  "createEvent cx name description iconUrl signer s = Inr (eid, s') \<longleftrightarrow>
     lastEventCreation s (msg_sender cx) + EVENT_COOLDOWN \<le> MAX_UINT256 \<and>
     block_timestamp cx \<ge> lastEventCreation s (msg_sender cx) + EVENT_COOLDOWN \<and>
     signer \<noteq> 0 \<and> 0 < length name \<and> length name \<le> 100 \<and> length description \<le> 500 \<and>
     eventIdCounter s < MAX_UINT256 \<and> eid = eventIdCounter s \<and>
     s' = s\<lparr>lastEventCreation := (lastEventCreation s)(msg_sender cx := block_timestamp cx),
            eventIdCounter := eventIdCounter s + 1,
            events := (events s)(eid := \<lparr>ev_id = eid, ev_name = name,
                                        ev_description = description, ev_iconUrl = iconUrl,
                                        ev_signer = signer, ev_exists = True\<rparr>),
            passport_logs := passport_logs s @ [EventCreated eid name signer]\<rparr>"
  by (auto simp: createEvent_def checked_add_def Let_def split: sum.splits if_splits)

lemma claimStamp_Inr_iff:
  "claimStamp env cx tokenId eventId nonce expiration signature w = Inr w' \<longleftrightarrow>
     \<not> entered (passport w) \<and> msg_sender cx \<noteq> 0 \<and> owners (passport w) tokenId = msg_sender cx \<and>
     ev_exists (events (passport w) eventId) \<and>
     hasStampForEvent (stamp w) (msg_sender cx) eventId = Inr False \<and>
     \<not> usedNonces (passport w) nonce \<and> block_timestamp cx \<le> expiration \<and>
     recover env (toEthSignedMessageHash env
        (keccak256_encodePacked env eventId nonce expiration (block_chainid cx))) signature
       = Some (ev_signer (events (passport w) eventId)) \<and>
     (\<exists>stampId st1.
        mintStamp (cx\<lparr>msg_sender := basePassAddress env\<rparr>) (msg_sender cx) eventId tokenId (stamp w)
          = Inr (stampId, st1) \<and>
        w' = w\<lparr>passport := (passport w)
                 \<lparr>usedNonces := (usedNonces (passport w))(nonce := True),
                  passport_logs := passport_logs (passport w) @
                     [StampClaimed tokenId eventId (msg_sender cx)]\<rparr>,
               stamp := st1\<rparr>)"
  by (auto simp: claimStamp_def nonReentrant_def claimStamp_body_def ownerOf_def Let_def
       split: sum.splits if_splits prod.splits option.splits)

section \<open>Transfers never go through; invariants are kept\<close>

lemma BasePass_update_Inr:
  "BasePass_update to tokenId auth s = Inr r \<Longrightarrow> owners s tokenId = 0"
  by (simp add: BasePass_update_def Let_def split: if_splits)

lemma EventStamp_update_Inr:
  "EventStamp_update to tokenId auth s = Inr r \<Longrightarrow> owners s tokenId = 0"
  by (simp add: EventStamp_update_def Let_def split: if_splits)

lemma ERC721_update_unauthorized:
  "owners s tokenId = 0 \<Longrightarrow> tokenApprovals s tokenId = 0 \<Longrightarrow> \<not> operatorApprovals s 0 auth \<Longrightarrow>
   auth \<noteq> 0 \<Longrightarrow> ERC721_update to tokenId auth s = Inl (ERC721NonexistentToken tokenId)"
  by (simp add: ERC721_update_def checkAuthorized_def isAuthorized_def Let_def)

lemma transferFrom_passport_fails:
  assumes "passport_inv s" "msg_sender cx \<noteq> 0"
  shows "\<exists>e. transferFrom BasePass_update cx from to tokenId s = Inl e"
proof (cases "owners s tokenId = 0")
  case True
  moreover from assms(1) True have "tokenApprovals s tokenId = 0"
    unfolding passport_inv_def by blast
  moreover from assms(1) have "\<not> operatorApprovals s 0 (msg_sender cx)"
    unfolding passport_inv_def by blast
  ultimately have "ERC721_update to tokenId (msg_sender cx) s = Inl (ERC721NonexistentToken tokenId)"
    using assms(2) by (intro ERC721_update_unauthorized)
  with True show ?thesis by (simp add: transferFrom_def BasePass_update_def)
next
  case False
  then show ?thesis by (simp add: transferFrom_def BasePass_update_def)
qed

lemma safeTransferFrom_passport_fails:
  assumes "passport_inv s" "msg_sender cx \<noteq> 0"
  shows "\<exists>e. safeTransferFrom BasePass_update cx from to tokenId s = Inl e"
  using transferFrom_passport_fails [OF assms, of "from" to tokenId]
  by (auto simp: safeTransferFrom_def)

lemma ERC721Enumerable_update_unauthorized:
  "owners s tokenId = 0 \<Longrightarrow> tokenApprovals s tokenId = 0 \<Longrightarrow> \<not> operatorApprovals s 0 auth \<Longrightarrow>
   auth \<noteq> 0 \<Longrightarrow> ERC721Enumerable_update to tokenId auth s = Inl (ERC721NonexistentToken tokenId)"
  by (simp add: ERC721Enumerable_update_def ERC721_update_unauthorized)

lemma transferFrom_stamp_fails:
  assumes "stamp_inv s" "msg_sender cx \<noteq> 0"
  shows "\<exists>e. transferFrom EventStamp_update cx from to tokenId s = Inl e"
proof (cases "owners s tokenId = 0")
  case True
  moreover from assms(1) True have "tokenApprovals s tokenId = 0"
    unfolding stamp_inv_def by blast
  moreover from assms(1) have "\<not> operatorApprovals s 0 (msg_sender cx)"
    unfolding stamp_inv_def by blast
  ultimately have "ERC721Enumerable_update to tokenId (msg_sender cx) s = Inl (ERC721NonexistentToken tokenId)"
    using assms(2) by (intro ERC721Enumerable_update_unauthorized)
  with True show ?thesis by (simp add: transferFrom_def EventStamp_update_def)
next
  case False
  then show ?thesis by (simp add: transferFrom_def EventStamp_update_def)
qed

lemma safeTransferFrom_stamp_fails:
  assumes "stamp_inv s" "msg_sender cx \<noteq> 0"
  shows "\<exists>e. safeTransferFrom EventStamp_update cx from to tokenId s = Inl e"
  using transferFrom_stamp_fails [OF assms, of "from" to tokenId]
  by (auto simp: safeTransferFrom_def)

lemma approve_Inr_iff:
  "approve cx to tokenId t = Inr t' \<longleftrightarrow>
     owners t tokenId \<noteq> 0 \<and>
     (msg_sender cx = 0 \<or> owners t tokenId = msg_sender cx \<or>
      operatorApprovals t (owners t tokenId) (msg_sender cx)) \<and>
     t' = t\<lparr>tokenApprovals := (tokenApprovals t)(tokenId := to)\<rparr>"
  by (auto simp: approve_def ownerOf_def split: if_splits)

lemma setApprovalForAll_Inr_iff:
  "setApprovalForAll cx operator approved t = Inr t' \<longleftrightarrow>
     operator \<noteq> 0 \<and>
     t' = t\<lparr>operatorApprovals :=
             (operatorApprovals t)(msg_sender cx := (operatorApprovals t (msg_sender cx))(operator := approved))\<rparr>"
  by (auto simp: setApprovalForAll_def)

lemma passport_inv_frame:
  assumes "passport_inv s"
    and "entered s' = entered s" "tokenIdCounter s' = tokenIdCounter s"
    and "owners s' = owners s" "balances s' = balances s"
    and "\<And>t. owners s t = 0 \<Longrightarrow> tokenApprovals s' t = 0"
    and "\<And>a. \<not> operatorApprovals s' 0 a"
    and "\<And>e. ev_exists (events s' e) \<Longrightarrow> e < eventIdCounter s' \<and> ev_signer (events s' e) \<noteq> 0"
  shows "passport_inv s'"
proof -
  have "one_passport_each s' = one_passport_each s" "minted s' = minted s"
    unfolding one_passport_each_def minted_def by (simp_all only: assms(4))
  with assms show ?thesis unfolding passport_inv_def by simp
qed

lemma passport_inv_tokenApprovals: "passport_inv s \<Longrightarrow> owners s t = 0 \<Longrightarrow> tokenApprovals s t = 0"
  unfolding passport_inv_def by blast

lemma passport_inv_operatorApprovals: "passport_inv s \<Longrightarrow> \<not> operatorApprovals s 0 a"
  unfolding passport_inv_def by blast

lemma passport_inv_events:
  "passport_inv s \<Longrightarrow> ev_exists (events s e) \<Longrightarrow> e < eventIdCounter s \<and> ev_signer (events s e) \<noteq> 0"
  unfolding passport_inv_def by blast

lemma passport_inv_approve:
  assumes "passport_inv s" "approve cx to tokenId s = Inr s'"
  shows "passport_inv s'"
proof (rule passport_inv_frame [OF assms(1)])
  from assms(2) have s': "s' = s\<lparr>tokenApprovals := (tokenApprovals s)(tokenId := to)\<rparr>"
    and ex: "owners s tokenId \<noteq> 0"
    by (simp_all add: approve_Inr_iff)
  show "entered s' = entered s" "tokenIdCounter s' = tokenIdCounter s"
    "owners s' = owners s" "balances s' = balances s"
    by (simp_all add: s')
  show "tokenApprovals s' t = 0" if "owners s t = 0" for t
    using that ex passport_inv_tokenApprovals [OF assms(1) that] by (auto simp: s')
  show "\<not> operatorApprovals s' 0 a" for a
    using passport_inv_operatorApprovals [OF assms(1)] by (simp add: s')
  show "e < eventIdCounter s' \<and> ev_signer (events s' e) \<noteq> 0" if "ev_exists (events s' e)" for e
    using that passport_inv_events [OF assms(1), of e] by (simp add: s')
qed

lemma passport_inv_setApprovalForAll:
  assumes "passport_inv s" "msg_sender cx \<noteq> 0" "setApprovalForAll cx operator approved s = Inr s'"
  shows "passport_inv s'"
proof (rule passport_inv_frame [OF assms(1)])
  from assms(3) have s': "s' = s\<lparr>operatorApprovals :=
             (operatorApprovals s)(msg_sender cx := (operatorApprovals s (msg_sender cx))(operator := approved))\<rparr>"
    by (simp add: setApprovalForAll_Inr_iff)
  show "entered s' = entered s" "tokenIdCounter s' = tokenIdCounter s"
    "owners s' = owners s" "balances s' = balances s"
    by (simp_all add: s')
  show "tokenApprovals s' t = 0" if "owners s t = 0" for t
    using passport_inv_tokenApprovals [OF assms(1) that] by (simp add: s')
  show "\<not> operatorApprovals s' 0 a" for a
    using passport_inv_operatorApprovals [OF assms(1)] assms(2) by (simp add: s')
  show "e < eventIdCounter s' \<and> ev_signer (events s' e) \<noteq> 0" if "ev_exists (events s' e)" for e
    using that passport_inv_events [OF assms(1), of e] by (simp add: s')
qed

lemma passport_inv_createEvent:
  assumes "passport_inv s" "createEvent cx name description iconUrl signer s = Inr (eid, s')"
  shows "passport_inv s'"
proof (rule passport_inv_frame [OF assms(1)])
  from assms(2) have s': "s' = s\<lparr>lastEventCreation := (lastEventCreation s)(msg_sender cx := block_timestamp cx),
            eventIdCounter := eventIdCounter s + 1,
            events := (events s)(eid := \<lparr>ev_id = eid, ev_name = name,
                                        ev_description = description, ev_iconUrl = iconUrl,
                                        ev_signer = signer, ev_exists = True\<rparr>),
            passport_logs := passport_logs s @ [EventCreated eid name signer]\<rparr>"
    and eid: "eid = eventIdCounter s" and sg: "signer \<noteq> 0"
    by (simp_all add: createEvent_Inr_iff)
  show "entered s' = entered s" "tokenIdCounter s' = tokenIdCounter s"
    "owners s' = owners s" "balances s' = balances s"
    by (simp_all add: s')
  show "tokenApprovals s' t = 0" if "owners s t = 0" for t
    using passport_inv_tokenApprovals [OF assms(1) that] by (simp add: s')
  show "\<not> operatorApprovals s' 0 a" for a
    using passport_inv_operatorApprovals [OF assms(1)] by (simp add: s')
  show "e < eventIdCounter s' \<and> ev_signer (events s' e) \<noteq> 0" if "ev_exists (events s' e)" for e
  proof (cases "e = eid")
    case True
    then show ?thesis using sg eid by (simp add: s')
  next
    case False
    with that have "ev_exists (events s e)" by (simp add: s')
    from passport_inv_events [OF assms(1) this] False show ?thesis by (simp add: s')
  qed
qed

lemma passport_inv_claimStamp:
  assumes "passport_inv (passport w)"
    "claimStamp env cx tokenId eventId nonce expiration signature w = Inr w'"
  shows "passport_inv (passport w')"
proof (rule passport_inv_frame [OF assms(1)])
  from assms(2) have s': "passport w' = (passport w)
                 \<lparr>usedNonces := (usedNonces (passport w))(nonce := True),
                  passport_logs := passport_logs (passport w) @
                     [StampClaimed tokenId eventId (msg_sender cx)]\<rparr>"
    by (auto simp: claimStamp_Inr_iff)
  show "entered (passport w') = entered (passport w)"
    "tokenIdCounter (passport w') = tokenIdCounter (passport w)"
    "owners (passport w') = owners (passport w)" "balances (passport w') = balances (passport w)"
    by (simp_all add: s')
  show "tokenApprovals (passport w') t = 0" if "owners (passport w) t = 0" for t
    using passport_inv_tokenApprovals [OF assms(1) that] by (simp add: s')
  show "\<not> operatorApprovals (passport w') 0 a" for a
    using passport_inv_operatorApprovals [OF assms(1)] by (simp add: s')
  show "e < eventIdCounter (passport w') \<and> ev_signer (events (passport w') e) \<noteq> 0"
    if "ev_exists (events (passport w') e)" for e
    using that passport_inv_events [OF assms(1), of e] by (simp add: s')
qed

lemma passport_inv_minted:
  assumes "passport_inv s"
  shows "owners s t \<noteq> 0 \<longleftrightarrow> 0 < t \<and> t < tokenIdCounter s"
proof -
  from assms have "minted s = {0<..<tokenIdCounter s}"
    unfolding passport_inv_def by blast
  then have "t \<in> minted s \<longleftrightarrow> t \<in> {0<..<tokenIdCounter s}" by simp
  then show ?thesis by (simp add: minted_def)
qed

lemma passport_inv_balance_one:
  "passport_inv s \<Longrightarrow> owners s t \<noteq> 0 \<Longrightarrow> balances s (owners s t) = 1"
  unfolding passport_inv_def by blast

lemma passport_inv_balance_le: "passport_inv s \<Longrightarrow> balances s a \<le> 1"
  unfolding passport_inv_def by blast

lemma passport_inv_unique:
  "passport_inv s \<Longrightarrow> owners s i \<noteq> 0 \<Longrightarrow> owners s i = owners s j \<Longrightarrow> i = j"
  unfolding passport_inv_def one_passport_each_def by blast

lemma passport_inv_entered: "passport_inv s \<Longrightarrow> \<not> entered s"
  unfolding passport_inv_def by blast

lemma passport_inv_counter_pos: "passport_inv s \<Longrightarrow> 0 < tokenIdCounter s"
  unfolding passport_inv_def by blast

lemma passport_inv_mintPassport:
  assumes "passport_inv (passport w)" "mintPassport cx w = Inr w'"
  shows "passport_inv (passport w')"
proof -
  let ?s = "passport w" and ?s' = "passport w'"
  let ?a = "msg_sender cx" and ?n = "tokenIdCounter (passport w)"
  from assms(2) have a: "?a \<noteq> 0" and b0: "balances ?s ?a = 0" and fresh: "owners ?s ?n = 0"
    by (simp_all add: mintPassport_Inr_iff)
  from assms(2) have s': "owners ?s' = (owners ?s)(?n := ?a)"
    "balances ?s' = (balances ?s)(?a := 1)" "tokenIdCounter ?s' = ?n + 1"
    "tokenApprovals ?s' = tokenApprovals ?s" "operatorApprovals ?s' = operatorApprovals ?s"
    "events ?s' = events ?s" "eventIdCounter ?s' = eventIdCounter ?s" "entered ?s' = entered ?s"
    by (simp_all add: mintPassport_Inr_iff)
  have old: "owners ?s t \<noteq> 0 \<longleftrightarrow> 0 < t \<and> t < ?n" for t
    using passport_inv_minted [OF assms(1)] .
  have oldb: "owners ?s t \<noteq> 0 \<Longrightarrow> balances ?s (owners ?s t) = 1" for t
    using passport_inv_balance_one [OF assms(1)] .
  have pos: "0 < ?n" using passport_inv_counter_pos [OF assms(1)] .
  have nota: "owners ?s t \<noteq> ?a" for t
    using oldb [of t] b0 a by auto
  have inj: "owners ?s i \<noteq> 0 \<Longrightarrow> owners ?s i = owners ?s j \<Longrightarrow> i = j" for i j
    using passport_inv_unique [OF assms(1)] .
  have 1: "\<not> entered ?s' \<and> 0 < tokenIdCounter ?s'"
    using passport_inv_entered [OF assms(1)] s' by simp
  have "owners ?s' t \<noteq> 0 \<longleftrightarrow> 0 < t \<and> t < tokenIdCounter ?s'" for t
    using old [of t] pos a fresh s' by (auto simp: less_Suc_eq)
  then have 2: "minted ?s' = {0<..<tokenIdCounter ?s'}"
    unfolding minted_def by (simp only: set_eq_iff mem_Collect_eq greaterThanLessThan_iff) simp
  have 8: "\<forall>t. owners ?s' t \<noteq> 0 \<longrightarrow> balances ?s' (owners ?s' t) = 1"
    using oldb nota s' by auto
  have 3: "\<forall>x. balances ?s' x \<le> 1"
    using passport_inv_balance_le [OF assms(1)] s' by simp
  have 4: "one_passport_each ?s'"
    unfolding one_passport_each_def
  proof (intro allI impI)
    fix i j assume ne: "owners ?s' i \<noteq> 0" and eq: "owners ?s' i = owners ?s' j"
    show "i = j"
    proof (cases "i = ?n")
      case True
      with eq s' nota [of j] show ?thesis by (simp split: if_splits)
    next
      case False
      with eq s' nota [of i] have "j \<noteq> ?n" by (auto split: if_splits)
      with False ne eq s' inj [of i j] show ?thesis by simp
    qed
  qed
  have 5: "\<forall>t. owners ?s' t = 0 \<longrightarrow> tokenApprovals ?s' t = 0"
    using passport_inv_tokenApprovals [OF assms(1)] s' a by (auto split: if_splits)
  have 6: "\<forall>x. \<not> operatorApprovals ?s' 0 x"
    using passport_inv_operatorApprovals [OF assms(1)] s' by simp
  have 7: "\<forall>e. ev_exists (events ?s' e) \<longrightarrow>
        e < eventIdCounter ?s' \<and> ev_signer (events ?s' e) \<noteq> 0"
    using passport_inv_events [OF assms(1)] s' by simp
  from 1 2 3 4 5 6 7 8 show ?thesis unfolding passport_inv_def by blast
qed

lemma stamp_inv_mintStamp:
  assumes "stamp_inv s" "mintStamp cx to eventId passportId s = Inr (tid, s')"
  shows "stamp_inv s'"
proof -
  from assms(2) have c: "stampIdCounter s < MAX_UINT256" and tid: "tid = stampIdCounter s"
    and fresh: "owners s (stampIdCounter s) = 0" and to: "to \<noteq> 0"
    by (simp_all add: mintStamp_Inr_iff)
  from assms(1) have b: "balances s to < stampIdCounter s" by (simp add: stamp_inv_def)
  with c have "unchecked_add (balances s to) 1 = balances s to + 1"
    by (intro unchecked_add_small) simp
  then have ua: "unchecked_add (balances s to) (Suc 0) = Suc (balances s to)" by simp
  from assms(2) have s': "owners s' = (owners s)(tid := to)"
    "balances s' = (balances s)(to := balances s to + 1)"
    "ownedTokens s' = (ownedTokens s)(to := (ownedTokens s to)(balances s to := tid))"
    "ownedTokensIndex s' = (ownedTokensIndex s)(tid := balances s to)"
    "stampIdCounter s' = stampIdCounter s + 1"
    "tokenApprovals s' = tokenApprovals s" "operatorApprovals s' = operatorApprovals s"
    by (simp_all add: mintStamp_Inr_iff ua)
  have old: "owners s t \<noteq> 0 \<Longrightarrow> t < stampIdCounter s" for t
    using assms(1) by (simp add: stamp_inv_def)
  have own: "a \<noteq> 0 \<Longrightarrow> i < balances s a \<Longrightarrow> owners s (ownedTokens s a i) = a" for a i
    using assms(1) by (simp add: stamp_inv_def)
  have idx: "owners s t \<noteq> 0 \<Longrightarrow> ownedTokensIndex s t < balances s (owners s t) \<and>
        ownedTokens s (owners s t) (ownedTokensIndex s t) = t" for t
    using assms(1) by (simp add: stamp_inv_def)
  have bal: "balances s a < stampIdCounter s" for a
    using assms(1) by (simp add: stamp_inv_def)
  have ownne: "a \<noteq> 0 \<Longrightarrow> i < balances s a \<Longrightarrow> ownedTokens s a i \<noteq> tid" for a i
    using own [of a i] fresh tid by auto
  have 1: "stampIdCounter s' \<le> MAX_UINT256" using c s' by simp
  have 2: "\<forall>t. owners s' t \<noteq> 0 \<longrightarrow> t < stampIdCounter s'"
    using old s' tid by (auto simp: less_Suc_eq)
  have 3: "\<forall>a. balances s' a < stampIdCounter s'"
    using bal s' by (auto intro: less_SucI)
  have 4: "\<forall>a i. a \<noteq> 0 \<longrightarrow> i < balances s' a \<longrightarrow> owners s' (ownedTokens s' a i) = a"
    using own ownne s' to by (auto simp: less_Suc_eq)
  have 5: "\<forall>t. owners s' t \<noteq> 0 \<longrightarrow>
        ownedTokensIndex s' t < balances s' (owners s' t) \<and>
        ownedTokens s' (owners s' t) (ownedTokensIndex s' t) = t"
  proof (intro allI impI)
    fix t assume t: "owners s' t \<noteq> 0"
    show "ownedTokensIndex s' t < balances s' (owners s' t) \<and>
        ownedTokens s' (owners s' t) (ownedTokensIndex s' t) = t"
    proof (cases "t = tid")
      case True
      then show ?thesis using s' by simp
    next
      case False
      with t s' have "owners s t \<noteq> 0" by simp
      from idx [OF this] False show ?thesis using s' by (auto simp: less_Suc_eq)
    qed
  qed
  have 6: "\<forall>t. owners s' t = 0 \<longrightarrow> tokenApprovals s' t = 0"
    using assms(1) s' to by (auto simp: stamp_inv_def)
  have 7: "\<forall>a. \<not> operatorApprovals s' 0 a"
    using assms(1) s' by (auto simp: stamp_inv_def)
  from 1 2 3 4 5 6 7 show ?thesis unfolding stamp_inv_def by blast
qed

lemma stamp_inv_approve:
  "stamp_inv s \<Longrightarrow> approve cx to tokenId s = Inr s' \<Longrightarrow> stamp_inv s'"
  by (auto simp: approve_Inr_iff stamp_inv_def)

lemma stamp_inv_setApprovalForAll:
  "stamp_inv s \<Longrightarrow> msg_sender cx \<noteq> 0 \<Longrightarrow> setApprovalForAll cx operator approved s = Inr s' \<Longrightarrow>
   stamp_inv s'"
  by (auto simp: setApprovalForAll_Inr_iff stamp_inv_def)

lemma grantRole_Inr_iff:
  "grantRole cx r account s = Inr s' \<longleftrightarrow>
     roles s DEFAULT_ADMIN_ROLE (msg_sender cx) \<and>
     s' = s\<lparr>roles := (roles s)(r := (roles s r)(account := True))\<rparr>"
  by (auto simp: grantRole_def checkRole_def getRoleAdmin_def)

lemma revokeRole_Inr_iff:
  "revokeRole cx r account s = Inr s' \<longleftrightarrow>
     roles s DEFAULT_ADMIN_ROLE (msg_sender cx) \<and>
     s' = s\<lparr>roles := (roles s)(r := (roles s r)(account := False))\<rparr>"
  by (auto simp: revokeRole_def checkRole_def getRoleAdmin_def)

lemma renounceRole_Inr_iff:
  "renounceRole cx r callerConfirmation s = Inr s' \<longleftrightarrow>
     callerConfirmation = msg_sender cx \<and>
     s' = s\<lparr>roles := (roles s)(r := (roles s r)(msg_sender cx := False))\<rparr>"
  by (auto simp: renounceRole_def)

lemma stamp_inv_roles_update: "stamp_inv (s\<lparr>roles := rs\<rparr>) = stamp_inv s"
  by (simp add: stamp_inv_def)

lemma passport_inv_owner_update: "passport_inv (s\<lparr>contract_owner := a\<rparr>) = passport_inv s"
  by (simp add: passport_inv_def minted_def one_passport_each_def)

lemma passport_inv_deployed: "passport_inv (BasePass_constructor deployer)"
  by (auto simp: passport_inv_def BasePass_constructor_def minted_def one_passport_each_def)

lemma stamp_inv_deployed: "stamp_inv (EventStamp_constructor deployer)"
  by (simp add: stamp_inv_def EventStamp_constructor_def MAX_UINT256_def)

lemma world_inv_deployed: "world_inv (deployed deployer)"
  by (simp add: world_inv_def deployed_def passport_inv_deployed stamp_inv_deployed)

lemma world_inv_exec:
  assumes "world_inv w" "msg_sender cx \<noteq> 0" "exec env cx c w = Inr w'"
  shows "world_inv w'"
proof (cases c)
  case MintPassport
  with assms show ?thesis
    using passport_inv_mintPassport [of w cx w']
    by (auto simp: world_inv_def mintPassport_Inr_iff)
next
  case (CreateEvent name description iconUrl signer)
  with assms show ?thesis
    by (cases "createEvent cx name description iconUrl signer (passport w)")
       (auto simp: world_inv_def on_passport_def dest: passport_inv_createEvent)
next
  case (ClaimStamp tokenId eventId nonce expiration signature)
  with assms have cl: "claimStamp env cx tokenId eventId nonce expiration signature w = Inr w'"
    by simp
  then obtain stampId where
    "mintStamp (cx\<lparr>msg_sender := basePassAddress env\<rparr>) (msg_sender cx) eventId tokenId (stamp w)
       = Inr (stampId, stamp w')"
    by (auto simp: claimStamp_Inr_iff)
  with assms(1) have "stamp_inv (stamp w')"
    by (auto simp: world_inv_def dest: stamp_inv_mintStamp)
  with assms(1) cl show ?thesis
    by (auto simp: world_inv_def dest: passport_inv_claimStamp)
next
  case (PassportTransferFrom src dst tokenId)
  with assms transferFrom_passport_fails [of "passport w" cx src dst tokenId] show ?thesis
    by (auto simp: world_inv_def on_passport_def)
next
  case (PassportSafeTransferFrom src dst tokenId)
  with assms safeTransferFrom_passport_fails [of "passport w" cx src dst tokenId] show ?thesis
    by (auto simp: world_inv_def on_passport_def)
next
  case (PassportApprove to tokenId)
  with assms show ?thesis
    by (auto simp: world_inv_def on_passport_def split: sum.splits dest: passport_inv_approve)
next
  case (PassportSetApprovalForAll operator approved)
  with assms show ?thesis
    by (auto simp: world_inv_def on_passport_def split: sum.splits
        dest: passport_inv_setApprovalForAll)
next
  case (TransferOwnership newOwner)
  with assms show ?thesis
    by (cases "transferOwnership_Ownable (contract_owner (passport w)) (msg_sender cx) newOwner")
       (auto simp: world_inv_def on_passport_def passport_inv_owner_update)
next
  case RenounceOwnership
  with assms show ?thesis
    by (cases "renounceOwnership_Ownable (contract_owner (passport w)) (msg_sender cx)")
       (auto simp: world_inv_def on_passport_def passport_inv_owner_update)
next
  case (MintStamp to eventId passportId)
  with assms show ?thesis
    by (cases "mintStamp cx to eventId passportId (stamp w)")
       (auto simp: world_inv_def on_stamp_def dest: stamp_inv_mintStamp)
next
  case (StampTransferFrom src dst tokenId)
  with assms transferFrom_stamp_fails [of "stamp w" cx src dst tokenId] show ?thesis
    by (auto simp: world_inv_def on_stamp_def)
next
  case (StampSafeTransferFrom src dst tokenId)
  with assms safeTransferFrom_stamp_fails [of "stamp w" cx src dst tokenId] show ?thesis
    by (auto simp: world_inv_def on_stamp_def)
next
  case (StampApprove to tokenId)
  with assms show ?thesis
    by (auto simp: world_inv_def on_stamp_def split: sum.splits dest: stamp_inv_approve)
next
  case (StampSetApprovalForAll operator approved)
  with assms show ?thesis
    by (auto simp: world_inv_def on_stamp_def split: sum.splits
        dest: stamp_inv_setApprovalForAll)
next
  case (GrantRole r account)
  with assms show ?thesis
    by (auto simp: world_inv_def on_stamp_def grantRole_Inr_iff stamp_inv_roles_update
        split: sum.splits)
next
  case (RevokeRole r account)
  with assms show ?thesis
    by (auto simp: world_inv_def on_stamp_def revokeRole_Inr_iff stamp_inv_roles_update
        split: sum.splits)
next
  case (RenounceRole r account)
  with assms show ?thesis
    by (auto simp: world_inv_def on_stamp_def renounceRole_Inr_iff stamp_inv_roles_update
        split: sum.splits)
qed

lemma world_inv_transact:
  "world_inv w \<Longrightarrow> msg_sender (fst tx) \<noteq> 0 \<Longrightarrow> world_inv (transact env tx w)"
  by (auto simp: transact_def split: sum.splits dest: world_inv_exec)

lemma reachable_world_inv: "reachable env deployer w \<Longrightarrow> world_inv w"
  by (induction rule: reachable.induct) (auto simp: world_inv_deployed intro: world_inv_transact)

lemma world_inv_run:
  "world_inv w \<Longrightarrow> senders_ok txs \<Longrightarrow> world_inv (run env txs w)"
  by (induction txs arbitrary: w) (auto simp: senders_ok_def world_inv_transact)

lemma reachable_run:
  "reachable env deployer w \<Longrightarrow> senders_ok txs \<Longrightarrow> reachable env deployer (run env txs w)"
proof (induction txs arbitrary: w)
  case Nil
  then show ?case by simp
next
  case (Cons tx txs)
  from Cons.prems have "reachable env deployer (transact env (fst tx, snd tx) w)"
    by (intro reachable_transact) (auto simp: senders_ok_def)
  with Cons show ?case by (simp add: senders_ok_def)
qed

section \<open>Looking up a stamp\<close>

lemma stamp_inv_owned:
  "stamp_inv s \<Longrightarrow> a \<noteq> 0 \<Longrightarrow> i < balances s a \<Longrightarrow> owners s (ownedTokens s a i) = a"
  unfolding stamp_inv_def by blast

lemma stamp_inv_index:
  "stamp_inv s \<Longrightarrow> owners s t \<noteq> 0 \<Longrightarrow>
   ownedTokensIndex s t < balances s (owners s t) \<and>
   ownedTokens s (owners s t) (ownedTokensIndex s t) = t"
  unfolding stamp_inv_def by blast

lemma stamp_inv_balance_bound: "stamp_inv s \<Longrightarrow> balances s a < MAX_UINT256"
proof -
  assume "stamp_inv s"
  then have "balances s a < stampIdCounter s" "stampIdCounter s \<le> MAX_UINT256"
    unfolding stamp_inv_def by blast+
  then show ?thesis by simp
qed

lemma stamp_inv_fresh: "stamp_inv s \<Longrightarrow> owners s (stampIdCounter s) = 0"
proof -
  assume "stamp_inv s"
  then have "owners s (stampIdCounter s) \<noteq> 0 \<longrightarrow> stampIdCounter s < stampIdCounter s"
    unfolding stamp_inv_def by blast
  then show ?thesis by simp
qed

text \<open>The loop returns whether some index from \<open>i\<close> on holds a stamp of the event.\<close>

lemma hasStampLoop_correct:
  assumes "a \<noteq> 0" "b \<le> balances s a" "b \<le> MAX_UINT256"
  shows "hasStampLoop s a eventId b i =
           Inr (\<exists>j. i \<le> j \<and> j < b \<and> meta_eventId (stampMetadata s (ownedTokens s a j)) = eventId)"
  using assms
proof (induction s a eventId b i rule: hasStampLoop.induct)
  case (1 s ownr eventId balance i)
  show ?case
  proof (cases "i < balance")
    case False
    then show ?thesis by (simp add: hasStampLoop.simps [of s ownr eventId balance i])
  next
    case True
    with "1.prems" have tok: "tokenOfOwnerByIndex s ownr i = Inr (ownedTokens s ownr i)"
      by (simp add: tokenOfOwnerByIndex_def balanceOf_def)
    from True "1.prems" have add: "checked_add i 1 = Inr (i + 1)"
      by (simp add: checked_add_def)
    show ?thesis
    proof (cases "meta_eventId (stampMetadata s (ownedTokens s ownr i)) = eventId")
      case hit: True
      with True tok show ?thesis
        by (auto simp: hasStampLoop.simps [of s ownr eventId balance i])
    next
      case miss: False
      from "1.IH" [OF True tok miss add "1.prems"]
      have "hasStampLoop s ownr eventId balance (i + 1) =
              Inr (\<exists>j\<ge>i + 1. j < balance \<and>
                     meta_eventId (stampMetadata s (ownedTokens s ownr j)) = eventId)" .
      moreover have "(\<exists>j\<ge>i + 1. j < balance \<and>
                     meta_eventId (stampMetadata s (ownedTokens s ownr j)) = eventId) \<longleftrightarrow>
            (\<exists>j\<ge>i. j < balance \<and>
                     meta_eventId (stampMetadata s (ownedTokens s ownr j)) = eventId)"
        using miss by (metis Suc_eq_plus1 Suc_leD Suc_leI le_neq_implies_less)
      ultimately show ?thesis using True tok miss add
        by (simp add: hasStampLoop.simps [of s ownr eventId balance i])
    qed
  qed
qed

lemma hasStampForEvent_correct:
  assumes "stamp_inv s" "a \<noteq> 0"
  shows "hasStampForEvent s a eventId = Inr (holdsStampFor s a eventId)"
proof -
  have "balances s a \<le> MAX_UINT256"
    using stamp_inv_balance_bound [OF assms(1), of a] by simp
  with assms(2) have "hasStampForEvent s a eventId =
      Inr (\<exists>j. 0 \<le> j \<and> j < balances s a \<and>
             meta_eventId (stampMetadata s (ownedTokens s a j)) = eventId)"
    by (simp add: hasStampForEvent_def balanceOf_def hasStampLoop_correct)
  moreover have "(\<exists>j. 0 \<le> j \<and> j < balances s a \<and>
             meta_eventId (stampMetadata s (ownedTokens s a j)) = eventId) \<longleftrightarrow>
        holdsStampFor s a eventId"
  proof
    assume "\<exists>j. 0 \<le> j \<and> j < balances s a \<and>
             meta_eventId (stampMetadata s (ownedTokens s a j)) = eventId"
    then obtain j where j: "j < balances s a"
      "meta_eventId (stampMetadata s (ownedTokens s a j)) = eventId" by blast
    from stamp_inv_owned [OF assms j(1)] j(2) show "holdsStampFor s a eventId"
      unfolding holdsStampFor_def by blast
  next
    assume "holdsStampFor s a eventId"
    then obtain t where t: "owners s t = a" "meta_eventId (stampMetadata s t) = eventId"
      unfolding holdsStampFor_def by blast
    with assms(2) stamp_inv_index [OF assms(1), of t]
    have "ownedTokensIndex s t < balances s a" "ownedTokens s a (ownedTokensIndex s t) = t"
      by auto
    with t(2) show "\<exists>j. 0 \<le> j \<and> j < balances s a \<and>
             meta_eventId (stampMetadata s (ownedTokens s a j)) = eventId"
      by (intro exI [of _ "ownedTokensIndex s t"]) simp
  qed
  ultimately show ?thesis by simp
qed

section \<open>The checks of a claim\<close>






section \<open>What transactions leave unchanged\<close>

text \<open>The successful transactions, by what they change.\<close>

lemma exec_Inr_cases [consumes 3, case_names mint create claim approve_passport operator_passport
    ownership mint_stamp approve_stamp operator_stamp roles]:
  assumes "exec env cx c w = Inr w'" "world_inv w" "msg_sender cx \<noteq> 0"
  obtains
    "c = MintPassport" "mintPassport cx w = Inr w'"
  | name description iconUrl signer eid s' where
      "c = CreateEvent name description iconUrl signer"
      "createEvent cx name description iconUrl signer (passport w) = Inr (eid, s')"
      "w' = w\<lparr>passport := s'\<rparr>"
  | tokenId eventId nonce expiration signature where
      "c = ClaimStamp tokenId eventId nonce expiration signature"
      "claimStamp env cx tokenId eventId nonce expiration signature w = Inr w'"
  | to tokenId where "c = PassportApprove to tokenId" "owners (passport w) tokenId \<noteq> 0"
      "w' = w\<lparr>passport := (passport w)\<lparr>tokenApprovals := (tokenApprovals (passport w))(tokenId := to)\<rparr>\<rparr>"
  | ops where "w' = w\<lparr>passport := (passport w)\<lparr>operatorApprovals := ops\<rparr>\<rparr>"
  | a where "w' = w\<lparr>passport := (passport w)\<lparr>contract_owner := a\<rparr>\<rparr>"
  | to eventId passportId tid s' where
      "c = MintStamp to eventId passportId" "roles (stamp w) MINTER_ROLE (msg_sender cx)"
      "mintStamp cx to eventId passportId (stamp w) = Inr (tid, s')" "w' = w\<lparr>stamp := s'\<rparr>"
  | to tokenId where "c = StampApprove to tokenId" "owners (stamp w) tokenId \<noteq> 0"
      "w' = w\<lparr>stamp := (stamp w)\<lparr>tokenApprovals := (tokenApprovals (stamp w))(tokenId := to)\<rparr>\<rparr>"
  | ops where "w' = w\<lparr>stamp := (stamp w)\<lparr>operatorApprovals := ops\<rparr>\<rparr>"
  | rs where "w' = w\<lparr>stamp := (stamp w)\<lparr>roles := rs\<rparr>\<rparr>"
proof (cases c)
  case MintPassport
  with assms that(1) show ?thesis by simp
next
  case (CreateEvent name description iconUrl signer)
  with assms that(2) show ?thesis
    by (cases "createEvent cx name description iconUrl signer (passport w)")
       (auto simp: on_passport_def)
next
  case (ClaimStamp tokenId eventId nonce expiration signature)
  with assms that(3) show ?thesis by simp
next
  case (PassportTransferFrom src dst tokenId)
  with assms transferFrom_passport_fails [of "passport w" cx src dst tokenId] show ?thesis
    by (auto simp: world_inv_def on_passport_def)
next
  case (PassportSafeTransferFrom src dst tokenId)
  with assms safeTransferFrom_passport_fails [of "passport w" cx src dst tokenId] show ?thesis
    by (auto simp: world_inv_def on_passport_def)
next
  case (PassportApprove to tokenId)
  with assms that(4) show ?thesis
    by (cases "approve cx to tokenId (passport w)") (auto simp: on_passport_def approve_Inr_iff)
next
  case (PassportSetApprovalForAll operator approved)
  with assms that(5) show ?thesis
    by (cases "setApprovalForAll cx operator approved (passport w)")
       (auto simp: on_passport_def setApprovalForAll_Inr_iff)
next
  case (TransferOwnership newOwner)
  with assms that(6) show ?thesis
    by (cases "transferOwnership_Ownable (contract_owner (passport w)) (msg_sender cx) newOwner")
       (auto simp: on_passport_def)
next
  case RenounceOwnership
  with assms that(6) show ?thesis
    by (cases "renounceOwnership_Ownable (contract_owner (passport w)) (msg_sender cx)")
       (auto simp: on_passport_def)
next
  case (MintStamp to eventId passportId)
  with assms that(7) show ?thesis
    by (cases "mintStamp cx to eventId passportId (stamp w)")
       (auto simp: on_stamp_def mintStamp_Inr_iff)
next
  case (StampTransferFrom src dst tokenId)
  with assms transferFrom_stamp_fails [of "stamp w" cx src dst tokenId] show ?thesis
    by (auto simp: world_inv_def on_stamp_def)
next
  case (StampSafeTransferFrom src dst tokenId)
  with assms safeTransferFrom_stamp_fails [of "stamp w" cx src dst tokenId] show ?thesis
    by (auto simp: world_inv_def on_stamp_def)
next
  case (StampApprove to tokenId)
  with assms that(8) show ?thesis
    by (cases "approve cx to tokenId (stamp w)") (auto simp: on_stamp_def approve_Inr_iff)
next
  case (StampSetApprovalForAll operator approved)
  with assms that(9) show ?thesis
    by (cases "setApprovalForAll cx operator approved (stamp w)")
       (auto simp: on_stamp_def setApprovalForAll_Inr_iff)
next
  case (GrantRole r account)
  with assms that(10) show ?thesis
    by (cases "grantRole cx r account (stamp w)") (auto simp: on_stamp_def grantRole_Inr_iff)
next
  case (RevokeRole r account)
  with assms that(10) show ?thesis
    by (cases "revokeRole cx r account (stamp w)") (auto simp: on_stamp_def revokeRole_Inr_iff)
next
  case (RenounceRole r account)
  with assms that(10) show ?thesis
    by (cases "renounceRole cx r account (stamp w)") (auto simp: on_stamp_def renounceRole_Inr_iff)
qed

lemma exec_keeps_passport_owner:
  assumes "exec env cx c w = Inr w'" "world_inv w" "msg_sender cx \<noteq> 0"
    "owners (passport w) t \<noteq> 0"
  shows "owners (passport w') t = owners (passport w) t"
  using assms(1-3)
proof (cases rule: exec_Inr_cases)
  case mint
  with assms(4) show ?thesis by (auto simp: mintPassport_Inr_iff)
next
  case (create name description iconUrl signer eid s')
  then show ?thesis by (auto simp: createEvent_Inr_iff)
next
  case (claim tokenId eventId nonce expiration signature)
  then show ?thesis by (auto simp: claimStamp_Inr_iff)
qed simp_all

lemma exec_keeps_passport_balance:
  assumes "exec env cx c w = Inr w'" "world_inv w" "msg_sender cx \<noteq> 0"
    "balances (passport w) a \<noteq> 0"
  shows "balances (passport w') a = balances (passport w) a"
  using assms(1-3)
proof (cases rule: exec_Inr_cases)
  case mint
  with assms(4) show ?thesis by (auto simp: mintPassport_Inr_iff)
next
  case (create name description iconUrl signer eid s')
  then show ?thesis by (auto simp: createEvent_Inr_iff)
next
  case (claim tokenId eventId nonce expiration signature)
  then show ?thesis by (auto simp: claimStamp_Inr_iff)
qed simp_all

lemma exec_keeps_usedNonces:
  assumes "exec env cx c w = Inr w'" "world_inv w" "msg_sender cx \<noteq> 0"
    "usedNonces (passport w) n"
  shows "usedNonces (passport w') n"
  using assms(1-3)
proof (cases rule: exec_Inr_cases)
  case mint
  with assms(4) show ?thesis by (auto simp: mintPassport_Inr_iff)
next
  case (create name description iconUrl signer eid s')
  with assms(4) show ?thesis by (auto simp: createEvent_Inr_iff)
next
  case (claim tokenId eventId nonce expiration signature)
  with assms(4) show ?thesis by (auto simp: claimStamp_Inr_iff)
qed (simp_all add: assms(4))

lemma exec_keeps_event:
  assumes "exec env cx c w = Inr w'" "world_inv w" "msg_sender cx \<noteq> 0"
    "ev_exists (events (passport w) e)"
  shows "events (passport w') e = events (passport w) e"
  using assms(1-3)
proof (cases rule: exec_Inr_cases)
  case mint
  then show ?thesis by (auto simp: mintPassport_Inr_iff)
next
  case (create name description iconUrl signer eid s')
  from assms(2,4) have "e < eventIdCounter (passport w)"
    using passport_inv_events [of "passport w" e] by (simp add: world_inv_def)
  with create show ?thesis by (auto simp: createEvent_Inr_iff)
next
  case (claim tokenId eventId nonce expiration signature)
  then show ?thesis by (auto simp: claimStamp_Inr_iff)
qed simp_all

lemma mintStamp_keeps:
  assumes "mintStamp cx to eventId passportId s = Inr (tid, s')" "stamp_inv s" "owners s t \<noteq> 0"
  shows "owners s' t = owners s t \<and> stampMetadata s' t = stampMetadata s t"
proof -
  from assms(2,3) stamp_inv_fresh [OF assms(2)] have "t \<noteq> stampIdCounter s" by auto
  with assms(1) show ?thesis by (auto simp: mintStamp_Inr_iff)
qed

lemma exec_keeps_stamp:
  assumes "exec env cx c w = Inr w'" "world_inv w" "msg_sender cx \<noteq> 0"
    "owners (stamp w) t \<noteq> 0"
  shows "owners (stamp w') t = owners (stamp w) t \<and>
         stampMetadata (stamp w') t = stampMetadata (stamp w) t"
  using assms(1-3)
proof (cases rule: exec_Inr_cases)
  case mint
  then show ?thesis by (auto simp: mintPassport_Inr_iff)
next
  case (claim tokenId eventId nonce expiration signature)
  then obtain stampId where
    "mintStamp (cx\<lparr>msg_sender := basePassAddress env\<rparr>) (msg_sender cx) eventId tokenId (stamp w)
       = Inr (stampId, stamp w')"
    by (auto simp: claimStamp_Inr_iff)
  from mintStamp_keeps [OF this _ assms(4)] assms(2) show ?thesis
    by (simp add: world_inv_def)
next
  case (mint_stamp to eventId passportId tid s')
  from mintStamp_keeps [OF mint_stamp(3) _ assms(4)] assms(2) mint_stamp(4) show ?thesis
    by (simp add: world_inv_def)
qed simp_all

text \<open>The same for a transaction, reverted or not, and for a sequence of transactions.\<close>

lemma transact_cases:
  obtains "transact env (cx, c) w = w" "\<exists>e. exec env cx c w = Inl e"
  | w' where "transact env (cx, c) w = w'" "exec env cx c w = Inr w'"
  by (cases "exec env cx c w") (auto simp: transact_def)

lemma holdsStampFor_kept:
  assumes "\<And>t. owners s t \<noteq> 0 \<Longrightarrow> owners s' t = owners s t \<and> stampMetadata s' t = stampMetadata s t"
    "a \<noteq> 0" "holdsStampFor s a eventId"
  shows "holdsStampFor s' a eventId"
proof -
  from assms(3) obtain t where t: "owners s t = a" "meta_eventId (stampMetadata s t) = eventId"
    unfolding holdsStampFor_def by blast
  with assms(1) [of t] assms(2) have "owners s' t = a" "meta_eventId (stampMetadata s' t) = eventId"
    by auto
  then show ?thesis unfolding holdsStampFor_def by blast
qed

lemma run_keeps:
  assumes "world_inv w" "senders_ok txs"
  shows "(owners (passport w) t \<noteq> 0 \<longrightarrow> owners (passport (run env txs w)) t = owners (passport w) t) \<and>
         (balances (passport w) a \<noteq> 0 \<longrightarrow>
            balances (passport (run env txs w)) a = balances (passport w) a) \<and>
         (usedNonces (passport w) n \<longrightarrow> usedNonces (passport (run env txs w)) n) \<and>
         (ev_exists (events (passport w) e) \<longrightarrow>
            events (passport (run env txs w)) e = events (passport w) e) \<and>
         (owners (stamp w) u \<noteq> 0 \<longrightarrow>
            owners (stamp (run env txs w)) u = owners (stamp w) u \<and>
            stampMetadata (stamp (run env txs w)) u = stampMetadata (stamp w) u)"
  using assms
proof (induction txs arbitrary: w)
  case Nil
  then show ?case by simp
next
  case (Cons tx txs)
  obtain cx c where tx: "tx = (cx, c)" by (cases tx)
  from Cons.prems have s: "msg_sender cx \<noteq> 0" "senders_ok txs"
    by (simp_all add: senders_ok_def tx)
  let ?w = "transact env (cx, c) w"
  from Cons.prems s have inv: "world_inv ?w" by (intro world_inv_transact) simp_all
  have step: "(owners (passport w) t \<noteq> 0 \<longrightarrow> owners (passport ?w) t = owners (passport w) t) \<and>
         (balances (passport w) a \<noteq> 0 \<longrightarrow> balances (passport ?w) a = balances (passport w) a) \<and>
         (usedNonces (passport w) n \<longrightarrow> usedNonces (passport ?w) n) \<and>
         (ev_exists (events (passport w) e) \<longrightarrow> events (passport ?w) e = events (passport w) e) \<and>
         (owners (stamp w) u \<noteq> 0 \<longrightarrow>
            owners (stamp ?w) u = owners (stamp w) u \<and>
            stampMetadata (stamp ?w) u = stampMetadata (stamp w) u)"
  proof (cases rule: transact_cases [of env cx c w])
    case 1
    then show ?thesis by simp
  next
    case (2 w')
    with Cons.prems(1) s(1) show ?thesis
      using exec_keeps_passport_owner [of env cx c w w' t]
        exec_keeps_passport_balance [of env cx c w w' a]
        exec_keeps_usedNonces [of env cx c w w' n]
        exec_keeps_event [of env cx c w w' e]
        exec_keeps_stamp [of env cx c w w' u]
      by simp
  qed
  from Cons.IH [OF inv s(2)] step show ?case by (auto simp: tx)
qed




lemma transfer_existing_passport:
  assumes "owners s t \<noteq> 0" "dst \<noteq> 0"
  shows "transferFrom BasePass_update cx src dst t s = Inl PassportNonTransferable"
    "safeTransferFrom BasePass_update cx src dst t s = Inl PassportNonTransferable"
  using assms by (simp_all add: safeTransferFrom_def transferFrom_def BasePass_update_def)

lemma transfer_existing_stamp:
  assumes "owners s t \<noteq> 0" "dst \<noteq> 0"
  shows "transferFrom EventStamp_update cx src dst t s = Inl StampNonTransferable"
    "safeTransferFrom EventStamp_update cx src dst t s = Inl StampNonTransferable"
  using assms by (simp_all add: safeTransferFrom_def transferFrom_def EventStamp_update_def)

section \<open>The concrete run, evaluated\<close>

lemmas demo_defs = demo_setup_def demo_env_def at_time_def deployed_def
  BasePass_constructor_def EventStamp_constructor_def deployer0_def alice_def bob_def
  demo_claim_def demo_payload_def

lemmas eval_defs = transact_def on_stamp_def on_passport_def grantRole_def checkRole_def
  getRoleAdmin_def createEvent_def checked_add_def checked_sub_def MAX_UINT256_def EVENT_COOLDOWN_def
  mintPassport_def nonReentrant_def mintPassport_body_def ERC721_safeMint_def ERC721_mint_def
  BasePass_update_def ERC721_update_def balanceOf_def ownerOf_def unchecked_add_def
  checkOnERC721Received_def Let_def claimStamp_def claimStamp_body_def hasStampForEvent_def
  hasStampLoop.simps tokenOfOwnerByIndex_def mintStamp_def EventStamp_update_def
  ERC721Enumerable_update_def addTokenToAllTokensEnumeration_def addTokenToOwnerEnumeration_def
  hasStamp_def

lemma demo_ready_passport:
  "passport demo_ready =
     (BasePass_constructor deployer0)
       \<lparr>owners := (\<lambda>_. 0)(1 := alice), balances := (\<lambda>_. 0)(alice := 1),
        tokenIdCounter := 2, eventIdCounter := 2,
        events := (events (BasePass_constructor deployer0))
           (1 := \<lparr>ev_id = 1, ev_name = ''Conference'', ev_description = ''Annual meeting'',
                  ev_iconUrl = ''ipfs://icon'', ev_signer = bob, ev_exists = True\<rparr>),
        lastEventCreation := (\<lambda>_. 0)(bob := 1000000),
        passport_logs := [PassportMinted alice 1, EventCreated 1 ''Conference'' bob]\<rparr>"
  by (simp add: demo_ready_def demo_defs eval_defs)

lemma demo_ready_stamp:
  "stamp demo_ready =
     (EventStamp_constructor deployer0)
       \<lparr>roles := (roles (EventStamp_constructor deployer0))
           (MINTER_ROLE := (roles (EventStamp_constructor deployer0) MINTER_ROLE)(50 := True))\<rparr>"
  by (simp add: demo_ready_def demo_defs eval_defs)


lemma demo_setup_senders: "senders_ok demo_setup"
  by (simp add: senders_ok_def demo_defs)

lemma demo_ready_reachable: "reachable demo_env deployer0 demo_ready"
  unfolding demo_ready_def
  by (intro reachable_run reachable_deployed demo_setup_senders)

lemma demo_claimed_reachable: "reachable demo_env deployer0 demo_claimed"
  unfolding demo_claimed_def
  by (intro reachable_transact demo_ready_reachable) (simp add: at_time_def alice_def)

lemma demo_claimed_passport:
  "passport demo_claimed =
     (passport demo_ready)
       \<lparr>usedNonces := (\<lambda>_. False)(1 := True),
        passport_logs := [PassportMinted alice 1, EventCreated 1 ''Conference'' bob,
                          StampClaimed 1 1 alice]\<rparr>"
  by (simp add: demo_claimed_def demo_ready_passport demo_ready_stamp demo_defs eval_defs)

lemma demo_claimed_stamp:
  "stamp demo_claimed =
     (stamp demo_ready)
       \<lparr>owners := (\<lambda>_. 0)(1 := alice), balances := (\<lambda>_. 0)(alice := 1),
        ownedTokens := (\<lambda>_ _. 0)(alice := (\<lambda>_. 0)(0 := 1)),
        ownedTokensIndex := (\<lambda>_. 0)(1 := 0),
        allTokens := [1], allTokensIndex := (\<lambda>_. 0)(1 := 0),
        stampIdCounter := 2,
        stampMetadata := (stampMetadata (EventStamp_constructor deployer0))
           (1 := \<lparr>meta_eventId = 1, meta_passportId = 1, meta_timestamp = 1000000\<rparr>),
        stamp_logs := [StampMinted alice 1 1 1]\<rparr>"
  by (simp add: demo_claimed_def demo_ready_passport demo_ready_stamp demo_defs eval_defs)





lemma at_time_simps:
  "msg_sender (at_time a t) = a" "block_timestamp (at_time a t) = t"
  "block_chainid (at_time a t) = 8453" "receiver_ok (at_time a t)"
  by (simp_all add: at_time_def)

lemma principals:
  "alice \<noteq> bob" "bob \<noteq> alice" "alice \<noteq> 0" "bob \<noteq> 0" "deployer0 \<noteq> 0"
  "alice \<noteq> deployer0" "bob \<noteq> deployer0" "0 < alice" "0 < bob" "0 < deployer0"
  by (simp_all add: alice_def bob_def deployer0_def)

lemmas create_defs = demo_created_def demo_env_def at_time_def deployed_def
  BasePass_constructor_def EventStamp_constructor_def deployer0_def alice_def bob_def



section \<open>The claims\<close>

text \<open>
  C10. \<^verbatim>\<open>hasStamp(tokenId, eventId)\<close> first resolves the owner of the passport, so it
  reverts (with \<^verbatim>\<open>ERC721NonexistentToken\<close>) exactly when \<open>tokenId\<close> is not a minted
  passport, that is, when it lies outside \<open>1 \<dots> tokenIdCounter - 1\<close>; for a minted
  passport it returns whether the owner of the passport owns a stamp of the event.
\<close>

theorem hasStamp_partial:
  assumes "reachable env deployer w"
  shows "hasStamp w tokenId eventId =
           (if 0 < tokenId \<and> tokenId < tokenIdCounter (passport w)
            then Inr (holdsStampFor (stamp w) (owners (passport w) tokenId) eventId)
            else Inl (ERC721NonexistentToken tokenId))"
proof -
  from assms have inv: "passport_inv (passport w)" "stamp_inv (stamp w)"
    using reachable_world_inv [of env deployer w] by (simp_all add: world_inv_def)
  show ?thesis
  proof (cases "owners (passport w) tokenId = 0")
    case True
    with passport_inv_minted [OF inv(1), of tokenId] show ?thesis
      by (simp add: hasStamp_def ownerOf_def)
  next
    case False
    with passport_inv_minted [OF inv(1), of tokenId]
    have "0 < tokenId \<and> tokenId < tokenIdCounter (passport w)" by simp
    with False hasStampForEvent_correct [OF inv(2) False, of eventId] show ?thesis
      by (simp add: hasStamp_def ownerOf_def)
  qed
qed

theorem hasStamp_partial_witness:
  "hasStamp demo_claimed 1 1 = Inr True \<and>
   hasStamp demo_claimed 1 2 = Inr False \<and>
   hasStamp demo_claimed 2 1 = Inl (ERC721NonexistentToken 2)"
proof -
  have "holdsStampFor (stamp demo_claimed) alice 1"
    unfolding holdsStampFor_def
    by (intro exI [of _ 1]) (simp add: demo_claimed_stamp)
  moreover have "\<not> holdsStampFor (stamp demo_claimed) alice 2"
    by (auto simp: holdsStampFor_def demo_claimed_stamp demo_ready_stamp
          EventStamp_constructor_def alice_def split: if_splits)
  ultimately show ?thesis
    using hasStamp_partial [OF demo_claimed_reachable, of 1 1]
      hasStamp_partial [OF demo_claimed_reachable, of 1 2]
      hasStamp_partial [OF demo_claimed_reachable, of 2 1]
    by (simp add: demo_claimed_passport demo_ready_passport)
qed







text \<open>
  C8. \<^verbatim>\<open>createEvent\<close> returns exactly when the signer is non-zero, the name has 1 to 100
  bytes, the description at most 500, and the caller's cooldown has elapsed (the two
  checked additions staying within \<^verbatim>\<open>uint256\<close>). It then returns the value of the event
  counter, which starts at 1, stores under that fresh id the record built from its
  arguments, advances the counter by one and emits \<open>EventCreated eventId name signer\<close>.
  A failing call leaves the state unchanged, and no later transaction changes a stored
  event.
\<close>

theorem createEvent_validation:
  assumes "reachable env deployer w"
  shows "(lastEventCreation (passport w) (msg_sender cx) + EVENT_COOLDOWN \<le> MAX_UINT256 \<and>
          eventIdCounter (passport w) < MAX_UINT256 \<longrightarrow>
            ((\<exists>r. createEvent cx name description iconUrl signer (passport w) = Inr r) \<longleftrightarrow>
             signer \<noteq> 0 \<and> 1 \<le> length name \<and> length name \<le> 100 \<and>
             length description \<le> 500 \<and>
             lastEventCreation (passport w) (msg_sender cx) + EVENT_COOLDOWN \<le> block_timestamp cx)) \<and>
         (\<forall>eid s'. createEvent cx name description iconUrl signer (passport w) = Inr (eid, s') \<longrightarrow>
            eid = eventIdCounter (passport w) \<and> \<not> ev_exists (events (passport w) eid) \<and>
            eventIdCounter s' = eid + 1 \<and>
            events s' = (events (passport w))
              (eid := \<lparr>ev_id = eid, ev_name = name, ev_description = description,
                       ev_iconUrl = iconUrl, ev_signer = signer, ev_exists = True\<rparr>) \<and>
            passport_logs s' = passport_logs (passport w) @ [EventCreated eid name signer] \<and>
            transact env (cx, CreateEvent name description iconUrl signer) w = w\<lparr>passport := s'\<rparr>) \<and>
         (\<forall>e. createEvent cx name description iconUrl signer (passport w) = Inl e \<longrightarrow>
            transact env (cx, CreateEvent name description iconUrl signer) w = w) \<and>
         eventIdCounter (passport (deployed deployer)) = 1 \<and>
         (\<forall>e txs. ev_exists (events (passport w) e) \<and> senders_ok txs \<longrightarrow>
            events (passport (run env txs w)) e = events (passport w) e)"
proof -
  from assms have inv: "world_inv w" by (rule reachable_world_inv)
  have 1: "lastEventCreation (passport w) (msg_sender cx) + EVENT_COOLDOWN \<le> MAX_UINT256 \<and>
          eventIdCounter (passport w) < MAX_UINT256 \<longrightarrow>
            ((\<exists>r. createEvent cx name description iconUrl signer (passport w) = Inr r) \<longleftrightarrow>
             signer \<noteq> 0 \<and> 1 \<le> length name \<and> length name \<le> 100 \<and>
             length description \<le> 500 \<and>
             lastEventCreation (passport w) (msg_sender cx) + EVENT_COOLDOWN \<le> block_timestamp cx)"
    by (auto simp: createEvent_Inr_iff Suc_le_eq)
  have fresh: "\<not> ev_exists (events (passport w) (eventIdCounter (passport w)))"
    using passport_inv_events [of "passport w" "eventIdCounter (passport w)"] inv
    by (auto simp: world_inv_def)
  have 2: "\<forall>eid s'. createEvent cx name description iconUrl signer (passport w) = Inr (eid, s') \<longrightarrow>
            eid = eventIdCounter (passport w) \<and> \<not> ev_exists (events (passport w) eid) \<and>
            eventIdCounter s' = eid + 1 \<and>
            events s' = (events (passport w))
              (eid := \<lparr>ev_id = eid, ev_name = name, ev_description = description,
                       ev_iconUrl = iconUrl, ev_signer = signer, ev_exists = True\<rparr>) \<and>
            passport_logs s' = passport_logs (passport w) @ [EventCreated eid name signer] \<and>
            transact env (cx, CreateEvent name description iconUrl signer) w = w\<lparr>passport := s'\<rparr>"
  proof (intro allI impI)
    fix eid s'
    assume c: "createEvent cx name description iconUrl signer (passport w) = Inr (eid, s')"
    then have "transact env (cx, CreateEvent name description iconUrl signer) w = w\<lparr>passport := s'\<rparr>"
      by (simp add: transact_def on_passport_def)
    moreover from c have "eid = eventIdCounter (passport w)"
      by (simp add: createEvent_Inr_iff)
    moreover from c have "eventIdCounter s' = eid + 1"
      "events s' = (events (passport w))
              (eid := \<lparr>ev_id = eid, ev_name = name, ev_description = description,
                       ev_iconUrl = iconUrl, ev_signer = signer, ev_exists = True\<rparr>)"
      "passport_logs s' = passport_logs (passport w) @ [EventCreated eid name signer]"
      by (simp_all add: createEvent_Inr_iff)
    ultimately show "eid = eventIdCounter (passport w) \<and> \<not> ev_exists (events (passport w) eid) \<and>
            eventIdCounter s' = eid + 1 \<and>
            events s' = (events (passport w))
              (eid := \<lparr>ev_id = eid, ev_name = name, ev_description = description,
                       ev_iconUrl = iconUrl, ev_signer = signer, ev_exists = True\<rparr>) \<and>
            passport_logs s' = passport_logs (passport w) @ [EventCreated eid name signer] \<and>
            transact env (cx, CreateEvent name description iconUrl signer) w = w\<lparr>passport := s'\<rparr>"
      using fresh by simp
  qed
  have 3: "\<forall>e. createEvent cx name description iconUrl signer (passport w) = Inl e \<longrightarrow>
            transact env (cx, CreateEvent name description iconUrl signer) w = w"
    by (simp add: transact_def on_passport_def)
  have 4: "eventIdCounter (passport (deployed deployer)) = 1"
    by (simp add: deployed_def BasePass_constructor_def)
  have 5: "\<forall>e txs. ev_exists (events (passport w) e) \<and> senders_ok txs \<longrightarrow>
            events (passport (run env txs w)) e = events (passport w) e"
    using run_keeps [OF inv] by blast
  from 1 2 3 4 5 show ?thesis by blast
qed

theorem createEvent_validation_witness:
  "(\<exists>s'. createEvent (at_time bob 1000000) ''Conference'' ''Annual meeting'' ''ipfs://icon'' bob
            (passport (deployed deployer0)) = Inr (1, s')) \<and>
   transact demo_env (at_time bob 1000000, CreateEvent [] ''Annual meeting'' ''ipfs://icon'' bob)
     (deployed deployer0) = deployed deployer0"
proof -
  let ?w = "deployed deployer0"
  have st: "lastEventCreation (passport ?w) bob = 0" "eventIdCounter (passport ?w) = 1"
    by (simp_all add: deployed_def BasePass_constructor_def)
  note thm1 = createEvent_validation [OF reachable_deployed, where env = demo_env
      and deployer = deployer0 and cx = "at_time bob 1000000" and name = "''Conference''"
      and description = "''Annual meeting''" and iconUrl = "''ipfs://icon''" and signer = bob]
  note thm2 = createEvent_validation [OF reachable_deployed, where env = demo_env
      and deployer = deployer0 and cx = "at_time bob 1000000" and name = "[]"
      and description = "''Annual meeting''" and iconUrl = "''ipfs://icon''" and signer = bob]
  from thm1 have "\<exists>r. createEvent (at_time bob 1000000) ''Conference'' ''Annual meeting''
        ''ipfs://icon'' bob (passport ?w) = Inr r"
    by (simp add: st at_time_simps principals EVENT_COOLDOWN_def MAX_UINT256_def)
  then obtain eid s' where c: "createEvent (at_time bob 1000000) ''Conference'' ''Annual meeting''
        ''ipfs://icon'' bob (passport ?w) = Inr (eid, s')"
    by auto
  with thm1 have "eid = 1" by (simp add: st del: One_nat_def)
  with c have a: "\<exists>s'. createEvent (at_time bob 1000000) ''Conference'' ''Annual meeting''
        ''ipfs://icon'' bob (passport ?w) = Inr (1, s')"
    by blast
  from thm2 have "\<not> (\<exists>r. createEvent (at_time bob 1000000) [] ''Annual meeting''
        ''ipfs://icon'' bob (passport ?w) = Inr r)"
    by (simp add: st at_time_simps principals EVENT_COOLDOWN_def MAX_UINT256_def)
  then obtain e where "createEvent (at_time bob 1000000) [] ''Annual meeting''
        ''ipfs://icon'' bob (passport ?w) = Inl e"
    by (cases "createEvent (at_time bob 1000000) [] ''Annual meeting''
        ''ipfs://icon'' bob (passport ?w)") auto
  with thm2 have "transact demo_env (at_time bob 1000000,
      CreateEvent [] ''Annual meeting'' ''ipfs://icon'' bob) ?w = ?w"
    by blast
  with a show ?thesis by blast
qed




text \<open>
  C5. \<^verbatim>\<open>mintPassport\<close> requires \<^verbatim>\<open>balanceOf(msg.sender) == 0\<close>: once a principal has
  minted, every later \<^verbatim>\<open>mintPassport\<close> of that principal, after any transactions, reverts
  with \<open>AlreadyHasIdentity\<close>; in every reachable state a balance is at most one and no
  address owns two passports.
\<close>

theorem mintPassport_single_identity:
  assumes "reachable env deployer w"
  shows "(\<forall>cx w1 txs cx'.
            mintPassport cx w = Inr w1 \<and> senders_ok txs \<and> msg_sender cx' = msg_sender cx \<longrightarrow>
            owners (passport w1) (tokenIdCounter (passport w)) = msg_sender cx \<and>
            mintPassport cx' (run env txs w1) = Inl AlreadyHasIdentity) \<and>
         (\<forall>a. balances (passport w) a \<le> 1) \<and>
         (\<forall>i j. owners (passport w) i \<noteq> 0 \<and> owners (passport w) i = owners (passport w) j \<longrightarrow>
                i = j)"
proof -
  from assms have inv: "world_inv w" by (rule reachable_world_inv)
  then have pinv: "passport_inv (passport w)" by (simp add: world_inv_def)
  have 1: "owners (passport w1) (tokenIdCounter (passport w)) = msg_sender cx \<and>
           mintPassport cx' (run env txs w1) = Inl AlreadyHasIdentity"
    if m: "mintPassport cx w = Inr w1" and so: "senders_ok txs"
      and same: "msg_sender cx' = msg_sender cx" for cx w1 txs cx'
  proof -
    from m have ne: "msg_sender cx \<noteq> 0" and b1: "balances (passport w1) (msg_sender cx) = 1"
      and o1: "owners (passport w1) (tokenIdCounter (passport w)) = msg_sender cx"
      by (simp_all add: mintPassport_Inr_iff)
    from m have "exec env cx MintPassport w = Inr w1" by simp
    then have inv1: "world_inv w1" using inv ne by (rule world_inv_exec [rotated 2])
    from run_keeps [OF inv1 so, where a = "msg_sender cx" and env = env] b1
    have b2: "balances (passport (run env txs w1)) (msg_sender cx) = 1" by simp
    from world_inv_run [OF inv1 so, of env]
    have "\<not> entered (passport (run env txs w1))"
      by (simp add: world_inv_def passport_inv_entered)
    with b2 ne same have "mintPassport cx' (run env txs w1) = Inl AlreadyHasIdentity"
      by (simp add: mintPassport_def nonReentrant_def mintPassport_body_def balanceOf_def)
    with o1 show ?thesis by simp
  qed
  have 2: "\<forall>a. balances (passport w) a \<le> 1"
    using passport_inv_balance_le [OF pinv] by simp
  have 3: "\<forall>i j. owners (passport w) i \<noteq> 0 \<and> owners (passport w) i = owners (passport w) j \<longrightarrow>
                i = j"
    using passport_inv_unique [OF pinv] by blast
  from 1 2 3 show ?thesis by blast
qed

theorem mintPassport_single_identity_witness:
  "mintPassport (at_time alice 1000900) demo_created = Inl AlreadyHasIdentity"
proof -
  let ?c = "CreateEvent ''Conference'' ''Annual meeting'' ''ipfs://icon'' bob"
  let ?w = "transact demo_env (at_time bob 1000000, ?c) (deployed deployer0)"
  let ?w1 = "transact demo_env (at_time alice 1000500, MintPassport) ?w"
  have r: "reachable demo_env deployer0 ?w"
    by (intro reachable_transact reachable_deployed) (simp add: at_time_simps principals)
  have m: "mintPassport (at_time alice 1000500) ?w = Inr ?w1"
    by (simp add: create_defs eval_defs)
  have w1: "run demo_env [] ?w1 = demo_created"
    by (simp add: demo_created_def)
  have so: "senders_ok []" by (simp add: senders_ok_def)
  from mintPassport_single_identity [OF r]
  have "\<forall>cx w1 txs cx'.
            mintPassport cx ?w = Inr w1 \<and> senders_ok txs \<and> msg_sender cx' = msg_sender cx \<longrightarrow>
            owners (passport w1) (tokenIdCounter (passport ?w)) = msg_sender cx \<and>
            mintPassport cx' (run demo_env txs w1) = Inl AlreadyHasIdentity"
    by (rule conjunct1)
  from this [rule_format, of "at_time alice 1000500" ?w1 "[]" "at_time alice 1000900"] m so
  have "mintPassport (at_time alice 1000900) (run demo_env [] ?w1) = Inl AlreadyHasIdentity"
    by (simp add: at_time_simps del: run.simps)
  then show ?thesis unfolding w1 .
qed

text \<open>
  C3. Passports and stamps are soulbound: in every reachable state, no sequence of
  transactions, whoever sends them, changes the owner of a token that has one, or the
  passport and event recorded for a stamp; every \<^verbatim>\<open>transferFrom\<close> and
  \<^verbatim>\<open>safeTransferFrom\<close> of either contract reverts, with the non-transferable error when
  the token exists and the recipient is not \<^verbatim>\<open>address(0)\<close>.
\<close>

theorem soulbound:
  assumes "reachable env deployer w"
  shows "(\<forall>txs t. senders_ok txs \<and> owners (passport w) t \<noteq> 0 \<longrightarrow>
            owners (passport (run env txs w)) t = owners (passport w) t) \<and>
         (\<forall>txs t. senders_ok txs \<and> owners (stamp w) t \<noteq> 0 \<longrightarrow>
            owners (stamp (run env txs w)) t = owners (stamp w) t \<and>
            stampMetadata (stamp (run env txs w)) t = stampMetadata (stamp w) t) \<and>
         (\<forall>cx src dst t. msg_sender cx \<noteq> 0 \<longrightarrow>
            (\<exists>e. exec env cx (PassportTransferFrom src dst t) w = Inl e) \<and>
            (\<exists>e. exec env cx (PassportSafeTransferFrom src dst t) w = Inl e) \<and>
            (\<exists>e. exec env cx (StampTransferFrom src dst t) w = Inl e) \<and>
            (\<exists>e. exec env cx (StampSafeTransferFrom src dst t) w = Inl e)) \<and>
         (\<forall>cx src dst t. owners (passport w) t \<noteq> 0 \<and> dst \<noteq> 0 \<longrightarrow>
            exec env cx (PassportTransferFrom src dst t) w = Inl PassportNonTransferable \<and>
            exec env cx (PassportSafeTransferFrom src dst t) w = Inl PassportNonTransferable) \<and>
         (\<forall>cx src dst t. owners (stamp w) t \<noteq> 0 \<and> dst \<noteq> 0 \<longrightarrow>
            exec env cx (StampTransferFrom src dst t) w = Inl StampNonTransferable \<and>
            exec env cx (StampSafeTransferFrom src dst t) w = Inl StampNonTransferable)"
proof -
  from assms have inv: "world_inv w" by (rule reachable_world_inv)
  then have pinv: "passport_inv (passport w)" and sinv: "stamp_inv (stamp w)"
    by (simp_all add: world_inv_def)
  have 1: "\<forall>txs t. senders_ok txs \<and> owners (passport w) t \<noteq> 0 \<longrightarrow>
            owners (passport (run env txs w)) t = owners (passport w) t"
    using run_keeps [OF inv] by blast
  have 2: "\<forall>txs t. senders_ok txs \<and> owners (stamp w) t \<noteq> 0 \<longrightarrow>
            owners (stamp (run env txs w)) t = owners (stamp w) t \<and>
            stampMetadata (stamp (run env txs w)) t = stampMetadata (stamp w) t"
    using run_keeps [OF inv] by blast
  have 3: "\<forall>cx src dst t. msg_sender cx \<noteq> 0 \<longrightarrow>
            (\<exists>e. exec env cx (PassportTransferFrom src dst t) w = Inl e) \<and>
            (\<exists>e. exec env cx (PassportSafeTransferFrom src dst t) w = Inl e) \<and>
            (\<exists>e. exec env cx (StampTransferFrom src dst t) w = Inl e) \<and>
            (\<exists>e. exec env cx (StampSafeTransferFrom src dst t) w = Inl e)"
  proof (intro allI impI)
    fix cx :: ctx and src dst t :: nat assume s: "msg_sender cx \<noteq> 0"
    from transferFrom_passport_fails [OF pinv s, of src dst t]
      safeTransferFrom_passport_fails [OF pinv s, of src dst t]
      transferFrom_stamp_fails [OF sinv s, of src dst t]
      safeTransferFrom_stamp_fails [OF sinv s, of src dst t]
    show "(\<exists>e. exec env cx (PassportTransferFrom src dst t) w = Inl e) \<and>
            (\<exists>e. exec env cx (PassportSafeTransferFrom src dst t) w = Inl e) \<and>
            (\<exists>e. exec env cx (StampTransferFrom src dst t) w = Inl e) \<and>
            (\<exists>e. exec env cx (StampSafeTransferFrom src dst t) w = Inl e)"
      by (auto simp: on_passport_def on_stamp_def)
  qed
  have 4: "\<forall>cx src dst t. owners (passport w) t \<noteq> 0 \<and> dst \<noteq> 0 \<longrightarrow>
            exec env cx (PassportTransferFrom src dst t) w = Inl PassportNonTransferable \<and>
            exec env cx (PassportSafeTransferFrom src dst t) w = Inl PassportNonTransferable"
    by (simp add: transfer_existing_passport on_passport_def)
  have 5: "\<forall>cx src dst t. owners (stamp w) t \<noteq> 0 \<and> dst \<noteq> 0 \<longrightarrow>
            exec env cx (StampTransferFrom src dst t) w = Inl StampNonTransferable \<and>
            exec env cx (StampSafeTransferFrom src dst t) w = Inl StampNonTransferable"
    by (simp add: transfer_existing_stamp on_stamp_def)
  from 1 2 3 4 5 show ?thesis by blast
qed

theorem soulbound_witness:
  "owners (passport (run demo_env demo_attack demo_claimed)) 1 = alice \<and>
   owners (stamp (run demo_env demo_attack demo_claimed)) 1 = alice \<and>
   exec demo_env (at_time deployer0 1000700) (PassportTransferFrom alice bob 1) demo_claimed =
     Inl PassportNonTransferable \<and>
   exec demo_env (at_time alice 1000700) (StampTransferFrom alice bob 1) demo_claimed =
     Inl StampNonTransferable"
proof -
  have so: "senders_ok demo_attack"
    by (simp add: senders_ok_def demo_attack_def at_time_simps principals)
  have o: "owners (passport demo_claimed) 1 = alice" "owners (stamp demo_claimed) 1 = alice"
    by (simp_all add: demo_claimed_passport demo_ready_passport demo_claimed_stamp)
  from soulbound [OF demo_claimed_reachable]
  have a: "\<forall>txs t. senders_ok txs \<and> owners (passport demo_claimed) t \<noteq> 0 \<longrightarrow>
            owners (passport (run demo_env txs demo_claimed)) t = owners (passport demo_claimed) t"
    and b: "\<forall>txs t. senders_ok txs \<and> owners (stamp demo_claimed) t \<noteq> 0 \<longrightarrow>
            owners (stamp (run demo_env txs demo_claimed)) t = owners (stamp demo_claimed) t \<and>
            stampMetadata (stamp (run demo_env txs demo_claimed)) t =
              stampMetadata (stamp demo_claimed) t"
    and c: "\<forall>cx src dst t. owners (passport demo_claimed) t \<noteq> 0 \<and> dst \<noteq> 0 \<longrightarrow>
            exec demo_env cx (PassportTransferFrom src dst t) demo_claimed =
              Inl PassportNonTransferable \<and>
            exec demo_env cx (PassportSafeTransferFrom src dst t) demo_claimed =
              Inl PassportNonTransferable"
    and d: "\<forall>cx src dst t. owners (stamp demo_claimed) t \<noteq> 0 \<and> dst \<noteq> 0 \<longrightarrow>
            exec demo_env cx (StampTransferFrom src dst t) demo_claimed = Inl StampNonTransferable \<and>
            exec demo_env cx (StampSafeTransferFrom src dst t) demo_claimed =
              Inl StampNonTransferable"
    by blast+
  from a [rule_format, of demo_attack 1] b [rule_format, of demo_attack 1]
    c [rule_format, of 1 bob "at_time deployer0 1000700" alice]
    d [rule_format, of 1 bob "at_time alice 1000700" alice] so o
  show ?thesis by (simp add: principals del: One_nat_def)
qed

text \<open>
  C9, as the code has it. The nonce ledger changes only in the commit of a successful
  \<^verbatim>\<open>claimStamp\<close>, which marks the nonce of the call. The stamp ledger changes only
  through \<^verbatim>\<open>mintStamp\<close>: in that commit, or in a direct call by an account that holds
  \<^verbatim>\<open>MINTER_ROLE\<close>.
\<close>

theorem ledger_mutators:
  assumes "reachable env deployer w" "msg_sender cx \<noteq> 0"
  shows "(usedNonces (passport (transact env (cx, c) w)) \<noteq> usedNonces (passport w) \<longrightarrow>
            (\<exists>tokenId eventId nonce expiration signature.
               c = ClaimStamp tokenId eventId nonce expiration signature \<and>
               claimStamp env cx tokenId eventId nonce expiration signature w =
                 Inr (transact env (cx, c) w) \<and>
               usedNonces (passport (transact env (cx, c) w)) =
                 (usedNonces (passport w))(nonce := True))) \<and>
         (owners (stamp (transact env (cx, c) w)) \<noteq> owners (stamp w) \<or>
          stampMetadata (stamp (transact env (cx, c) w)) \<noteq> stampMetadata (stamp w) \<or>
          stampIdCounter (stamp (transact env (cx, c) w)) \<noteq> stampIdCounter (stamp w) \<longrightarrow>
            (\<exists>tokenId eventId nonce expiration signature.
               c = ClaimStamp tokenId eventId nonce expiration signature \<and>
               claimStamp env cx tokenId eventId nonce expiration signature w =
                 Inr (transact env (cx, c) w)) \<or>
            (\<exists>to eventId passportId.
               c = MintStamp to eventId passportId \<and> roles (stamp w) MINTER_ROLE (msg_sender cx)))"
proof (cases rule: transact_cases [of env cx c w])
  case 1
  then show ?thesis by simp
next
  case (2 w')
  from assms(1) have inv: "world_inv w" by (rule reachable_world_inv)
  note eq = 2(1)
  from 2(2) inv assms(2) show ?thesis
  proof (cases rule: exec_Inr_cases)
    case mint
    with eq show ?thesis by (auto simp: mintPassport_Inr_iff)
  next
    case (create name description iconUrl signer eid s')
    with eq show ?thesis by (auto simp: createEvent_Inr_iff)
  next
    case (claim tokenId eventId nonce expiration signature)
    then have "usedNonces (passport w') = (usedNonces (passport w))(nonce := True)"
      by (auto simp: claimStamp_Inr_iff)
    with claim eq show ?thesis by auto
  next
    case (approve_passport to tokenId)
    with eq show ?thesis by simp
  next
    case (operator_passport ops)
    with eq show ?thesis by simp
  next
    case (ownership a)
    with eq show ?thesis by simp
  next
    case (mint_stamp to eventId passportId tid s')
    with eq show ?thesis by simp
  next
    case (approve_stamp to tokenId)
    with eq show ?thesis by simp
  next
    case (operator_stamp ops)
    with eq show ?thesis by simp
  next
    case (roles rs)
    with eq show ?thesis by simp
  qed
qed

theorem ledger_mutators_witness:
  "usedNonces (passport (transact demo_env (at_time bob 1000000, MintPassport) demo_ready)) =
     usedNonces (passport demo_ready) \<and>
   owners (stamp (transact demo_env (at_time bob 1000000, MintPassport) demo_ready)) =
     owners (stamp demo_ready)"
proof -
  have s: "msg_sender (at_time bob 1000000) \<noteq> 0" by (simp add: at_time_simps principals)
  from ledger_mutators [OF demo_ready_reachable s, of MintPassport]
  show ?thesis by simp
qed

text \<open>
  On the fresh deployment the deployer, who holds \<^verbatim>\<open>MINTER_ROLE\<close> from the constructor of
  \<^verbatim>\<open>EventStamp\<close>, mints a stamp to \<open>bob\<close> by calling \<^verbatim>\<open>mintStamp\<close> directly: no claim, no
  signature, no passport and no event are involved.
\<close>

theorem mintStamp_direct_counterexample:
  "owners (stamp (deployed deployer0)) 1 = 0 \<and>
   owners (stamp (transact demo_env (at_time deployer0 1000000, MintStamp bob 1 1)
                    (deployed deployer0))) 1 = bob \<and>
   hasStampForEvent (stamp (transact demo_env (at_time deployer0 1000000, MintStamp bob 1 1)
                    (deployed deployer0))) bob 1 = Inr True \<and>
   usedNonces (passport (transact demo_env (at_time deployer0 1000000, MintStamp bob 1 1)
                    (deployed deployer0))) = (\<lambda>_. False)"
  by (simp add: create_defs eval_defs)




end
